theory Spec2Isabelle
  imports Complex_Main "HOL-Library.Product_Lexorder"
begin

section \<open>The record model of \<^verbatim>\<open>database/schema.sql\<close>\<close>

text \<open>
  Every table of the schema is a list of rows in insertion order, every row a record with
  the table's columns. A \<^verbatim>\<open>UUID\<close> is an opaque identifier (a natural number here; only
  equality is used), a \<^verbatim>\<open>TIMESTAMPTZ\<close> a point on a discrete clock, a \<^verbatim>\<open>DATE\<close> a day
  number, \<^verbatim>\<open>TEXT\<close> and \<^verbatim>\<open>VARCHAR\<close> a string, a nullable column an option.
  \<^verbatim>\<open>REAL\<close> and \<^verbatim>\<open>DECIMAL\<close> columns are rationals: quarter-hour values and their sums
  are represented exactly in binary floating point, so nothing is lost for the values the
  time sheet stores.
\<close>

type_synonym uuid = nat
type_synonym timestamp = nat
type_synonym date = nat

datatype user_role = role_admin | role_manager | role_member
datatype project_status = ps_planning | ps_active | ps_onhold | ps_completed | ps_cancelled
datatype priority = pr_low | pr_medium | pr_high | pr_critical
datatype task_status = st_todo | st_inprogress | st_review | st_done | st_blocked
datatype team_member_role = tm_lead | tm_member
datatype notification_type =
  nt_task_assigned | nt_task_updated | nt_task_completed | nt_task_due_soon
  | nt_project_updated | nt_comment_added | nt_mention

record user =
  usr_id :: uuid
  usr_email :: string
  usr_password_hash :: string
  usr_name :: string
  usr_role :: user_role
  usr_avatar_url :: "string option"
  usr_created_at :: timestamp
  usr_updated_at :: timestamp

record team =
  team_id :: uuid
  team_name :: string
  team_description :: "string option"
  team_lead_id :: "uuid option"
  team_created_at :: timestamp
  team_updated_at :: timestamp

record team_member =
  tm_id :: uuid
  tm_team_id :: uuid
  tm_user_id :: uuid
  tm_role :: team_member_role
  tm_joined_at :: timestamp

record project =
  prj_id :: uuid
  prj_name :: string
  prj_description :: "string option"
  prj_status :: project_status
  prj_priority :: priority
  prj_start_date :: "timestamp option"
  prj_end_date :: "timestamp option"
  prj_budget :: "rat option"
  prj_owner_id :: uuid
  prj_created_at :: timestamp
  prj_updated_at :: timestamp

record project_member =
  pm_id :: uuid
  pm_project_id :: uuid
  pm_user_id :: uuid
  pm_role :: "string option"
  pm_joined_at :: timestamp

record milestone =
  ms_id :: uuid
  ms_project_id :: uuid
  ms_name :: string
  ms_description :: "string option"
  ms_due_date :: "timestamp option"
  ms_completed :: bool
  ms_created_at :: timestamp
  ms_updated_at :: timestamp

record task =
  task_id :: uuid
  task_project_id :: uuid
  task_milestone_id :: "uuid option"
  task_title :: string
  task_description :: "string option"
  task_status :: task_status
  task_priority :: priority
  task_assignee_id :: "uuid option"
  task_due_date :: "timestamp option"
  task_estimated_hours :: "rat option"
  task_actual_hours :: "rat option"
  task_created_at :: timestamp
  task_updated_at :: timestamp

record task_comment =
  tc_id :: uuid
  tc_task_id :: uuid
  tc_user_id :: uuid
  tc_content :: string
  tc_created_at :: timestamp
  tc_updated_at :: timestamp

text \<open>\<^verbatim>\<open>details JSONB\<close> holds a flat JSON object, as in the seed data:
  \<^verbatim>\<open>{"from": "todo", "to": "done"}\<close>.\<close>

record activity_log =
  al_id :: uuid
  al_user_id :: "uuid option"
  al_project_id :: "uuid option"
  al_action :: string
  al_entity_type :: string
  al_entity_id :: uuid
  al_details :: "(string \<times> string) list option"
  al_created_at :: timestamp

record time_log =
  tl_id :: uuid
  tl_task_id :: uuid
  tl_user_id :: uuid
  tl_hours :: rat
  tl_date :: date
  tl_description :: "string option"
  tl_created_at :: timestamp
  tl_updated_at :: timestamp

record tag =
  tag_id :: uuid
  tag_name :: string
  tag_color :: string
  tag_description :: "string option"
  tag_created_at :: timestamp
  tag_updated_at :: timestamp

record task_tag =
  tt_id :: uuid
  tt_task_id :: uuid
  tt_tag_id :: uuid
  tt_created_at :: timestamp

record attachment =
  att_id :: uuid
  att_task_id :: uuid
  att_uploaded_by :: uuid
  att_filename :: string
  att_original_filename :: string
  att_content_type :: string
  att_size_bytes :: int
  att_storage_path :: string
  att_created_at :: timestamp

record notification =
  ntf_id :: uuid
  ntf_user_id :: uuid
  ntf_notification_type :: notification_type
  ntf_title :: string
  ntf_message :: string
  ntf_link :: "string option"
  ntf_is_read :: bool
  ntf_created_at :: timestamp

record database =
  users :: "user list"
  teams :: "team list"
  team_members :: "team_member list"
  projects :: "project list"
  project_members :: "project_member list"
  milestones :: "milestone list"
  tasks :: "task list"
  task_comments :: "task_comment list"
  activity_logs :: "activity_log list"
  time_logs :: "time_log list"
  tags :: "tag list"
  task_tags :: "task_tag list"
  attachments :: "attachment list"
  notifications :: "notification list"


section \<open>Referential actions declared by the schema\<close>

text \<open>
  A statement either commits or is rolled back whole. A rejected statement is \<open>Inl\<close> of
  the error and leaves the database as it was; \<open>state_after\<close> is the database a later
  read observes. The three errors are the ones the design names: a missing row, a value
  that violates a key or a domain, and a deletion stopped by \<^verbatim>\<open>ON DELETE RESTRICT\<close>.
\<close>

datatype error = NotFound | ValidationError | ReferentialConflict

definition state_after :: "database \<Rightarrow> error + database \<Rightarrow> database" where
  "state_after db r = (case r of Inl _ \<Rightarrow> db | Inr db' \<Rightarrow> db')"

text \<open>
  \<^verbatim>\<open>milestone_id UUID REFERENCES milestones(id) ON DELETE SET NULL\<close>: the action is an
  update of the referencing task, so the trigger \<^verbatim>\<open>update_tasks_updated_at\<close>
  (\<^verbatim>\<open>BEFORE UPDATE ON tasks FOR EACH ROW\<close>, \<^verbatim>\<open>NEW.updated_at = NOW()\<close>) runs on it.
\<close>

definition tasks_milestone_set_null :: "timestamp \<Rightarrow> uuid list \<Rightarrow> task \<Rightarrow> task" where
  "tasks_milestone_set_null now gone t =
     (case task_milestone_id t of
        None \<Rightarrow> t
      | Some m \<Rightarrow>
          if m \<in> set gone then t\<lparr>task_milestone_id := None, task_updated_at := now\<rparr> else t)"

text \<open>\<^verbatim>\<open>assignee_id UUID REFERENCES users(id) ON DELETE SET NULL\<close>, with the same trigger.\<close>

definition tasks_assignee_set_null :: "timestamp \<Rightarrow> uuid \<Rightarrow> task \<Rightarrow> task" where
  "tasks_assignee_set_null now uid t =
     (if task_assignee_id t = Some uid
      then t\<lparr>task_assignee_id := None, task_updated_at := now\<rparr> else t)"

text \<open>\<^verbatim>\<open>lead_id UUID REFERENCES users(id) ON DELETE SET NULL\<close>, with the trigger
  \<^verbatim>\<open>update_teams_updated_at\<close>.\<close>

definition teams_lead_set_null :: "timestamp \<Rightarrow> uuid \<Rightarrow> team \<Rightarrow> team" where
  "teams_lead_set_null now uid g =
     (if team_lead_id g = Some uid
      then g\<lparr>team_lead_id := None, team_updated_at := now\<rparr> else g)"

text \<open>\<^verbatim>\<open>activity_logs.user_id ... ON DELETE SET NULL\<close>; the table has no
  \<^verbatim>\<open>updated_at\<close> column and no trigger.\<close>

definition activity_logs_user_set_null :: "uuid \<Rightarrow> activity_log \<Rightarrow> activity_log" where
  "activity_logs_user_set_null uid a =
     (if al_user_id a = Some uid then a\<lparr>al_user_id := None\<rparr> else a)"

text \<open>
  Deleting task rows: \<^verbatim>\<open>task_comments\<close>, \<^verbatim>\<open>time_logs\<close>, \<^verbatim>\<open>task_tags\<close> and
  \<^verbatim>\<open>attachments\<close> reference \<^verbatim>\<open>tasks(id) ON DELETE CASCADE\<close>.
\<close>

definition delete_tasks_where :: "(task \<Rightarrow> bool) \<Rightarrow> database \<Rightarrow> database" where
  "delete_tasks_where P db =
     (let gone = map task_id (filter P (tasks db)) in
      db\<lparr>tasks := filter (\<lambda>t. \<not> P t) (tasks db),
         task_comments := filter (\<lambda>c. tc_task_id c \<notin> set gone) (task_comments db),
         time_logs := filter (\<lambda>l. tl_task_id l \<notin> set gone) (time_logs db),
         task_tags := filter (\<lambda>x. tt_task_id x \<notin> set gone) (task_tags db),
         attachments := filter (\<lambda>a. att_task_id a \<notin> set gone) (attachments db)\<rparr>)"

text \<open>Deleting milestone rows: only \<^verbatim>\<open>tasks.milestone_id\<close> references them.\<close>

definition delete_milestones_where ::
  "timestamp \<Rightarrow> (milestone \<Rightarrow> bool) \<Rightarrow> database \<Rightarrow> database" where
  "delete_milestones_where now P db =
     (let gone = map ms_id (filter P (milestones db)) in
      db\<lparr>milestones := filter (\<lambda>m. \<not> P m) (milestones db),
         tasks := map (tasks_milestone_set_null now gone) (tasks db)\<rparr>)"

text \<open>
  \<^verbatim>\<open>DELETE FROM projects WHERE id = pid\<close>. \<^verbatim>\<open>project_members\<close>, \<^verbatim>\<open>milestones\<close>,
  \<^verbatim>\<open>tasks\<close> and \<^verbatim>\<open>activity_logs\<close> reference \<^verbatim>\<open>projects(id) ON DELETE CASCADE\<close>; no
  reference to a project restricts. When no row has the id, nothing is deleted and no
  action runs.
\<close>

definition delete_project :: "timestamp \<Rightarrow> uuid \<Rightarrow> database \<Rightarrow> database" where
  "delete_project now pid db =
     (if pid \<notin> set (map prj_id (projects db)) then db
      else
        let db1 = db\<lparr>projects := filter (\<lambda>p. prj_id p \<noteq> pid) (projects db),
                     project_members :=
                       filter (\<lambda>r. pm_project_id r \<noteq> pid) (project_members db),
                     activity_logs :=
                       filter (\<lambda>a. al_project_id a \<noteq> Some pid) (activity_logs db)\<rparr>;
            db2 = delete_milestones_where now (\<lambda>m. ms_project_id m = pid) db1
        in delete_tasks_where (\<lambda>t. task_project_id t = pid) db2)"

definition delete_milestone :: "timestamp \<Rightarrow> uuid \<Rightarrow> database \<Rightarrow> database" where
  "delete_milestone now mid db =
     (if mid \<notin> set (map ms_id (milestones db)) then db
      else delete_milestones_where now (\<lambda>m. ms_id m = mid) db)"

definition delete_task :: "uuid \<Rightarrow> database \<Rightarrow> database" where
  "delete_task tid db =
     (if tid \<notin> set (map task_id (tasks db)) then db
      else delete_tasks_where (\<lambda>t. task_id t = tid) db)"

text \<open>\<^verbatim>\<open>task_tags.tag_id ... REFERENCES tags(id) ON DELETE CASCADE\<close>.\<close>

definition delete_tag :: "uuid \<Rightarrow> database \<Rightarrow> database" where
  "delete_tag gid db =
     (if gid \<notin> set (map tag_id (tags db)) then db
      else db\<lparr>tags := filter (\<lambda>g. tag_id g \<noteq> gid) (tags db),
              task_tags := filter (\<lambda>x. tt_tag_id x \<noteq> gid) (task_tags db)\<rparr>)"

text \<open>\<^verbatim>\<open>team_members.team_id ... REFERENCES teams(id) ON DELETE CASCADE\<close>.\<close>

definition delete_team :: "uuid \<Rightarrow> database \<Rightarrow> database" where
  "delete_team gid db =
     (if gid \<notin> set (map team_id (teams db)) then db
      else db\<lparr>teams := filter (\<lambda>g. team_id g \<noteq> gid) (teams db),
              team_members := filter (\<lambda>r. tm_team_id r \<noteq> gid) (team_members db)\<rparr>)"

text \<open>
  \<^verbatim>\<open>DELETE FROM users WHERE id = uid\<close>. \<^verbatim>\<open>projects.owner_id\<close> references
  \<^verbatim>\<open>users(id) ON DELETE RESTRICT\<close>, so the statement fails while a project names the
  user as owner. Otherwise \<^verbatim>\<open>teams.lead_id\<close>, \<^verbatim>\<open>tasks.assignee_id\<close> and
  \<^verbatim>\<open>activity_logs.user_id\<close> are set to null, and \<^verbatim>\<open>team_members\<close>,
  \<^verbatim>\<open>project_members\<close>, \<^verbatim>\<open>task_comments\<close>, \<^verbatim>\<open>time_logs\<close>, \<^verbatim>\<open>attachments\<close>
  (\<^verbatim>\<open>uploaded_by\<close>) and \<^verbatim>\<open>notifications\<close> cascade.
\<close>

definition delete_user :: "timestamp \<Rightarrow> uuid \<Rightarrow> database \<Rightarrow> error + database" where
  "delete_user now uid db =
     (if uid \<notin> set (map usr_id (users db)) then Inr db
      else if \<exists>p \<in> set (projects db). prj_owner_id p = uid then Inl ReferentialConflict
      else Inr (db\<lparr>
        users := filter (\<lambda>u. usr_id u \<noteq> uid) (users db),
        teams := map (teams_lead_set_null now uid) (teams db),
        team_members := filter (\<lambda>r. tm_user_id r \<noteq> uid) (team_members db),
        project_members := filter (\<lambda>r. pm_user_id r \<noteq> uid) (project_members db),
        tasks := map (tasks_assignee_set_null now uid) (tasks db),
        task_comments := filter (\<lambda>c. tc_user_id c \<noteq> uid) (task_comments db),
        activity_logs := map (activity_logs_user_set_null uid) (activity_logs db),
        time_logs := filter (\<lambda>l. tl_user_id l \<noteq> uid) (time_logs db),
        attachments := filter (\<lambda>a. att_uploaded_by a \<noteq> uid) (attachments db),
        notifications := filter (\<lambda>n. ntf_user_id n \<noteq> uid) (notifications db)\<rparr>))"


section \<open>Keys declared by the schema\<close>

text \<open>
  An \<^verbatim>\<open>INSERT\<close> appends the row. The primary key and the \<^verbatim>\<open>UNIQUE\<close> constraint are
  checked when the row is written, the foreign keys (\<^verbatim>\<open>NOT NULL REFERENCES\<close>) when the
  statement ends; a violated key is a \<open>ValidationError\<close>, an unresolved reference is
  \<open>NotFound\<close>.
\<close>

text \<open>\<^verbatim>\<open>team_members\<close>: \<^verbatim>\<open>UNIQUE(team_id, user_id)\<close>.\<close>

definition insert_team_member :: "team_member \<Rightarrow> database \<Rightarrow> error + database" where
  "insert_team_member r db =
     (if tm_id r \<in> set (map tm_id (team_members db)) then Inl ValidationError
      else if \<exists>x \<in> set (team_members db).
                tm_team_id x = tm_team_id r \<and> tm_user_id x = tm_user_id r
      then Inl ValidationError
      else if tm_team_id r \<notin> set (map team_id (teams db))
              \<or> tm_user_id r \<notin> set (map usr_id (users db))
      then Inl NotFound
      else Inr (db\<lparr>team_members := team_members db @ [r]\<rparr>))"

text \<open>\<^verbatim>\<open>project_members\<close>: \<^verbatim>\<open>UNIQUE(project_id, user_id)\<close>.\<close>

definition insert_project_member :: "project_member \<Rightarrow> database \<Rightarrow> error + database" where
  "insert_project_member r db =
     (if pm_id r \<in> set (map pm_id (project_members db)) then Inl ValidationError
      else if \<exists>x \<in> set (project_members db).
                pm_project_id x = pm_project_id r \<and> pm_user_id x = pm_user_id r
      then Inl ValidationError
      else if pm_project_id r \<notin> set (map prj_id (projects db))
              \<or> pm_user_id r \<notin> set (map usr_id (users db))
      then Inl NotFound
      else Inr (db\<lparr>project_members := project_members db @ [r]\<rparr>))"

text \<open>\<^verbatim>\<open>task_tags\<close>: \<^verbatim>\<open>UNIQUE(task_id, tag_id)\<close>.\<close>

definition insert_task_tag :: "task_tag \<Rightarrow> database \<Rightarrow> error + database" where
  "insert_task_tag r db =
     (if tt_id r \<in> set (map tt_id (task_tags db)) then Inl ValidationError
      else if \<exists>x \<in> set (task_tags db).
                tt_task_id x = tt_task_id r \<and> tt_tag_id x = tt_tag_id r
      then Inl ValidationError
      else if tt_task_id r \<notin> set (map task_id (tasks db))
              \<or> tt_tag_id r \<notin> set (map tag_id (tags db))
      then Inl NotFound
      else Inr (db\<lparr>task_tags := task_tags db @ [r]\<rparr>))"

text \<open>\<^verbatim>\<open>tags\<close>: \<^verbatim>\<open>name VARCHAR(100) NOT NULL UNIQUE\<close>; names are compared as they are
  written, case included.\<close>

definition insert_tag :: "tag \<Rightarrow> database \<Rightarrow> error + database" where
  "insert_tag r db =
     (if tag_id r \<in> set (map tag_id (tags db)) then Inl ValidationError
      else if tag_name r \<in> set (map tag_name (tags db)) then Inl ValidationError
      else Inr (db\<lparr>tags := tags db @ [r]\<rparr>))"

text \<open>
  \<^verbatim>\<open>UPDATE tags SET name, color, description WHERE id = gid\<close>: the new name must not be
  the name of another tag; the trigger \<^verbatim>\<open>update_tags_updated_at\<close> sets \<^verbatim>\<open>updated_at\<close>.
  When no row has the id, nothing is updated.
\<close>

definition update_tag ::
  "timestamp \<Rightarrow> uuid \<Rightarrow> string \<Rightarrow> string \<Rightarrow> string option \<Rightarrow> database \<Rightarrow> error + database" where
  "update_tag now gid name color description db =
     (if gid \<notin> set (map tag_id (tags db)) then Inr db
      else if \<exists>g \<in> set (tags db). tag_id g \<noteq> gid \<and> tag_name g = name
      then Inl ValidationError
      else Inr (db\<lparr>tags :=
        map (\<lambda>g. if tag_id g = gid
                  then g\<lparr>tag_name := name, tag_color := color,
                         tag_description := description, tag_updated_at := now\<rparr>
                  else g) (tags db)\<rparr>))"

text \<open>The statements above as one type of operation, each run at the time \<open>now\<close>.\<close>

datatype op =
    InsertTeamMember team_member
  | InsertProjectMember project_member
  | InsertTaskTag task_tag
  | InsertTag tag
  | UpdateTag uuid string string "string option"
  | DeleteProject uuid
  | DeleteUser uuid
  | DeleteMilestone uuid
  | DeleteTask uuid
  | DeleteTag uuid
  | DeleteTeam uuid

fun apply_op :: "timestamp \<Rightarrow> op \<Rightarrow> database \<Rightarrow> error + database" where
  "apply_op now (InsertTeamMember r) db = insert_team_member r db"
| "apply_op now (InsertProjectMember r) db = insert_project_member r db"
| "apply_op now (InsertTaskTag r) db = insert_task_tag r db"
| "apply_op now (InsertTag r) db = insert_tag r db"
| "apply_op now (UpdateTag gid name color description) db =
     update_tag now gid name color description db"
| "apply_op now (DeleteProject pid) db = Inr (delete_project now pid db)"
| "apply_op now (DeleteUser uid) db = delete_user now uid db"
| "apply_op now (DeleteMilestone mid) db = Inr (delete_milestone now mid db)"
| "apply_op now (DeleteTask tid) db = Inr (delete_task tid db)"
| "apply_op now (DeleteTag gid) db = Inr (delete_tag gid db)"
| "apply_op now (DeleteTeam gid) db = Inr (delete_team gid db)"

text \<open>The uniqueness constraints of the four tables, with the primary key of \<^verbatim>\<open>tags\<close>.\<close>

definition schema_unique :: "database \<Rightarrow> bool" where
  "schema_unique db \<longleftrightarrow>
     distinct (map (\<lambda>r. (tm_team_id r, tm_user_id r)) (team_members db))
   \<and> distinct (map (\<lambda>r. (pm_project_id r, pm_user_id r)) (project_members db))
   \<and> distinct (map (\<lambda>r. (tt_task_id r, tt_tag_id r)) (task_tags db))
   \<and> distinct (map tag_name (tags db))
   \<and> distinct (map tag_id (tags db))"

section \<open>Time Ledger\<close>

text \<open>
  Modelled from the spec: the server operations \<^verbatim>\<open>recordTime\<close>, \<^verbatim>\<open>delete(entry_id)\<close> and
  \<^verbatim>\<open>total(task_id)\<close> of the Time Ledger are not among the sources; only the table
  \<^verbatim>\<open>time_logs\<close> (which declares \<^verbatim>\<open>hours REAL NOT NULL\<close> without a check) and the client
  calls are. The definitions follow sections 4.4, 6 and 7 of the design: \<^verbatim>\<open>record\<close>
  validates the 0.25 to 24 quarter-hour domain and that the task exists, totals are sums
  over the entry set computed on demand, \<^verbatim>\<open>delete\<close> removes a single entry.
\<close>

definition valid_hours :: "rat \<Rightarrow> bool" where
  "valid_hours h \<longleftrightarrow> 1 / 4 \<le> h \<and> h \<le> 24 \<and> of_int \<lfloor>4 * h\<rfloor> = 4 * h"

text \<open>Modelled from the spec: \<^verbatim>\<open>recordTime(task_id, user_id, hours, date, description?)\<close>;
  \<open>eid\<close> is the identifier drawn for the new row, \<open>now\<close> its creation time.\<close>

definition recordTime ::
  "timestamp \<Rightarrow> uuid \<Rightarrow> uuid \<Rightarrow> uuid \<Rightarrow> rat \<Rightarrow> date \<Rightarrow> string option \<Rightarrow> database
     \<Rightarrow> error + database" where
  "recordTime now eid tid uid hours day description db =
     (if \<not> valid_hours hours then Inl ValidationError
      else if tid \<notin> set (map task_id (tasks db)) then Inl NotFound
      else if uid \<notin> set (map usr_id (users db)) then Inl NotFound
      else if eid \<in> set (map tl_id (time_logs db)) then Inl ValidationError
      else Inr (db\<lparr>time_logs := time_logs db @
        [\<lparr>tl_id = eid, tl_task_id = tid, tl_user_id = uid, tl_hours = hours, tl_date = day,
          tl_description = description, tl_created_at = now, tl_updated_at = now\<rparr>]\<rparr>))"

text \<open>Modelled from the spec: \<^verbatim>\<open>delete(entry_id)\<close> of the Time Ledger.\<close>

definition deleteTimeEntry :: "uuid \<Rightarrow> database \<Rightarrow> error + database" where
  "deleteTimeEntry eid db =
     (if eid \<notin> set (map tl_id (time_logs db)) then Inl NotFound
      else Inr (db\<lparr>time_logs := filter (\<lambda>l. tl_id l \<noteq> eid) (time_logs db)\<rparr>))"

text \<open>Modelled from the spec: \<^verbatim>\<open>total(task_id)\<close> of the Time Ledger.\<close>

definition total :: "uuid \<Rightarrow> database \<Rightarrow> rat" where
  "total tid db = sum_list (map tl_hours (filter (\<lambda>l. tl_task_id l = tid) (time_logs db)))"

text \<open>A history of ledger calls; a rejected call leaves the ledger as it was.\<close>

datatype ledger_call =
    Record timestamp uuid uuid uuid rat date "string option"
  | Delete uuid

fun ledger_step :: "ledger_call \<Rightarrow> database \<Rightarrow> database" where
  "ledger_step (Record now eid tid uid hours day description) db =
     state_after db (recordTime now eid tid uid hours day description db)"
| "ledger_step (Delete eid) db = state_after db (deleteTimeEntry eid db)"

fun ledger_run :: "ledger_call list \<Rightarrow> database \<Rightarrow> database" where
  "ledger_run [] db = db"
| "ledger_run (c # cs) db = ledger_run cs (ledger_step c db)"

text \<open>
  What the history says, without running it: the entries present at the start that no call
  deletes, and the entries of the accepted \<open>Record\<close> calls that no later call deletes.
\<close>

definition kept :: "database \<Rightarrow> ledger_call list \<Rightarrow> time_log list" where
  "kept db cs = filter (\<lambda>l. Delete (tl_id l) \<notin> set cs) (time_logs db)"

fun recorded :: "database \<Rightarrow> ledger_call list \<Rightarrow> time_log list" where
  "recorded db [] = []"
| "recorded db (Record now eid tid uid hours day description # cs) =
     (if valid_hours hours \<and> tid \<in> set (map task_id (tasks db))
         \<and> uid \<in> set (map usr_id (users db)) \<and> Delete eid \<notin> set cs
      then [\<lparr>tl_id = eid, tl_task_id = tid, tl_user_id = uid, tl_hours = hours,
             tl_date = day, tl_description = description, tl_created_at = now,
             tl_updated_at = now\<rparr>]
      else []) @ recorded db cs"
| "recorded db (Delete eid # cs) = recorded db cs"

fun record_ids :: "ledger_call list \<Rightarrow> uuid list" where
  "record_ids [] = []"
| "record_ids (Record now eid tid uid hours day description # cs) = eid # record_ids cs"
| "record_ids (Delete eid # cs) = record_ids cs"

section \<open>Task Lifecycle Engine\<close>

text \<open>The labels of \<^verbatim>\<open>CREATE TYPE task_status AS ENUM\<close>, as the seed data writes them
  into \<^verbatim>\<open>details\<close>.\<close>

fun task_status_label :: "task_status \<Rightarrow> string" where
  "task_status_label st_todo = ''todo''"
| "task_status_label st_inprogress = ''inprogress''"
| "task_status_label st_review = ''review''"
| "task_status_label st_done = ''done''"
| "task_status_label st_blocked = ''blocked''"

text \<open>
  Modelled from the spec: \<^verbatim>\<open>transitionTask(task_id, new_status, actor)\<close> is a server
  operation that is not among the sources (the client only sends the new status). After
  sections 4.3 and 4.5 of the design: any status may be set to any other in one call, the
  call appends an event of kind \<^verbatim>\<open>status_changed\<close> carrying \<^verbatim>\<open>{from, to}\<close> in the same
  atomic unit, and a task that is set to \<^verbatim>\<open>done\<close> while it has no \<^verbatim>\<open>actual_hours\<close>
  takes them from the ledger's total when that policy (\<open>derive_actual\<close>) is switched on.
  \<open>eid\<close> is the identifier drawn for the event; the update of the task runs the trigger
  \<^verbatim>\<open>update_tasks_updated_at\<close>.
\<close>

definition transitionTask ::
  "bool \<Rightarrow> timestamp \<Rightarrow> uuid \<Rightarrow> uuid \<Rightarrow> task_status \<Rightarrow> uuid \<Rightarrow> database \<Rightarrow> error + database" where
  "transitionTask derive_actual now eid tid new_status actor db =
     (case find (\<lambda>t. task_id t = tid) (tasks db) of
        None \<Rightarrow> Inl NotFound
      | Some t \<Rightarrow>
          if actor \<notin> set (map usr_id (users db)) then Inl NotFound
          else if eid \<in> set (map al_id (activity_logs db)) then Inl ValidationError
          else Inr (db\<lparr>
            tasks := map (\<lambda>x. if task_id x = tid
                then x\<lparr>task_status := new_status,
                       task_actual_hours :=
                         (if derive_actual \<and> new_status = st_done \<and> task_actual_hours x = None
                          then Some (total tid db) else task_actual_hours x),
                       task_updated_at := now\<rparr>
                else x) (tasks db),
            activity_logs := activity_logs db @
              [\<lparr>al_id = eid, al_user_id = Some actor,
                al_project_id = Some (task_project_id t),
                al_action = ''status_changed'', al_entity_type = ''task'',
                al_entity_id = tid,
                al_details = Some [(''from'', task_status_label (task_status t)),
                                   (''to'', task_status_label new_status)],
                al_created_at = now\<rparr>]\<rparr>))"

section \<open>Activity Recorder: reading\<close>

text \<open>
  Modelled from the spec: \<^verbatim>\<open>listActivity(project_id?, limit, before?)\<close> is a server
  operation that is not among the sources, and the client never passes \<^verbatim>\<open>before\<close>. After
  section 4.5 of the design: events are ordered by creation timestamp descending, ties
  break by a monotonically increasing insertion sequence descending, and \<^verbatim>\<open>before\<close> is a
  cursor on that pair. The table \<^verbatim>\<open>activity_logs\<close> stores no sequence number and its
  \<^verbatim>\<open>id\<close> is a random UUID, so the sequence is the parameter \<open>seq\<close>: the number an
  event received when it was inserted, by the identifier of the event. It stays with the
  event whatever happens to other rows.
\<close>

definition event_key :: "(uuid \<Rightarrow> nat) \<Rightarrow> activity_log \<Rightarrow> timestamp \<times> nat" where
  "event_key seq e = (al_created_at e, seq (al_id e))"

definition in_project :: "uuid option \<Rightarrow> activity_log \<Rightarrow> bool" where
  "in_project project e =
     (case project of None \<Rightarrow> True | Some p \<Rightarrow> al_project_id e = Some p)"

definition before_cursor ::
  "(uuid \<Rightarrow> nat) \<Rightarrow> (timestamp \<times> nat) option \<Rightarrow> activity_log \<Rightarrow> bool" where
  "before_cursor seq before e =
     (case before of None \<Rightarrow> True | Some c \<Rightarrow> event_key seq e < c)"

text \<open>Modelled from the spec: the order of the listing, newest first, over the events of
  the project (all events when no project is given).\<close>

definition newest_first :: "(uuid \<Rightarrow> nat) \<Rightarrow> uuid option \<Rightarrow> database \<Rightarrow> activity_log list" where
  "newest_first seq project db =
     rev (sort_key (event_key seq) (filter (in_project project) (activity_logs db)))"

text \<open>Modelled from the spec: \<^verbatim>\<open>listActivity(project_id?, limit, before?)\<close>; the cursor for
  the next page is the key of the last event of a page.\<close>

definition listActivity ::
  "(uuid \<Rightarrow> nat) \<Rightarrow> uuid option \<Rightarrow> nat \<Rightarrow> (timestamp \<times> nat) option \<Rightarrow> database
     \<Rightarrow> activity_log list" where
  "listActivity seq project limit before db =
     take limit (filter (before_cursor seq before) (newest_first seq project db))"

text \<open>
  Modelled from the spec: the sequence is monotonically increasing, so along the table,
  which holds the rows in insertion order, the numbers grow.
\<close>

definition insertion_ordered :: "(uuid \<Rightarrow> nat) \<Rightarrow> database \<Rightarrow> bool" where
  "insertion_ordered seq db \<longleftrightarrow>
     sorted_wrt (\<lambda>a b. seq (al_id a) < seq (al_id b)) (activity_logs db)"

text \<open>
  Between two page requests no new event is inserted: every event of the later table is an
  event of the earlier one, with its identifier, creation time and project. Events may
  have gone (the cascade of a project) and the actor may have been set to null.
\<close>

definition event_core :: "activity_log \<Rightarrow> uuid \<times> timestamp \<times> uuid option" where
  "event_core e = (al_id e, al_created_at e, al_project_id e)"

definition no_new_events :: "database \<Rightarrow> database \<Rightarrow> bool" where
  "no_new_events db db' \<longleftrightarrow>
     set (map event_core (activity_logs db')) \<subseteq> set (map event_core (activity_logs db))"

section \<open>The kanban board of the client\<close>






section \<open>Sample data\<close>

text \<open>
  A part of \<^verbatim>\<open>database/seed.sql\<close>, each identifier shortened to the two digits its
  literal ends with, every row created at time 100: the manager 12 owns the project 17,
  the developer 13 owns none, is assigned the tasks 23 and 24, and the milestone 21 holds
  the tasks 23, 24 and 26.
\<close>

definition seed_users :: "user list" where
  "seed_users =
    [\<lparr>usr_id = 12, usr_email = ''manager@pmo.local'', usr_password_hash = ''h'',
      usr_name = ''Project Manager'', usr_role = role_manager, usr_avatar_url = None,
      usr_created_at = 100, usr_updated_at = 100\<rparr>,
     \<lparr>usr_id = 13, usr_email = ''dev1@pmo.local'', usr_password_hash = ''h'',
      usr_name = ''Developer One'', usr_role = role_member, usr_avatar_url = None,
      usr_created_at = 100, usr_updated_at = 100\<rparr>]"

definition seed_teams :: "team list" where
  "seed_teams =
    [\<lparr>team_id = 15, team_name = ''Engineering'',
      team_description = Some ''Core engineering team'', team_lead_id = Some 12,
      team_created_at = 100, team_updated_at = 100\<rparr>]"

definition seed_team_members :: "team_member list" where
  "seed_team_members =
    [\<lparr>tm_id = 1, tm_team_id = 15, tm_user_id = 12, tm_role = tm_lead, tm_joined_at = 100\<rparr>,
     \<lparr>tm_id = 2, tm_team_id = 15, tm_user_id = 13, tm_role = tm_member, tm_joined_at = 100\<rparr>]"

definition seed_projects :: "project list" where
  "seed_projects =
    [\<lparr>prj_id = 17, prj_name = ''Website Redesign'',
      prj_description = Some ''Complete redesign of company website'',
      prj_status = ps_active, prj_priority = pr_high, prj_start_date = Some 1,
      prj_end_date = Some 181, prj_budget = Some 50000, prj_owner_id = 12,
      prj_created_at = 100, prj_updated_at = 100\<rparr>]"

definition seed_project_members :: "project_member list" where
  "seed_project_members =
    [\<lparr>pm_id = 3, pm_project_id = 17, pm_user_id = 12, pm_role = Some ''Project Manager'',
      pm_joined_at = 100\<rparr>,
     \<lparr>pm_id = 4, pm_project_id = 17, pm_user_id = 13, pm_role = Some ''Frontend Developer'',
      pm_joined_at = 100\<rparr>]"

definition seed_milestones :: "milestone list" where
  "seed_milestones =
    [\<lparr>ms_id = 21, ms_project_id = 17, ms_name = ''Development Phase'',
      ms_description = Some ''Implement frontend and backend'', ms_due_date = Some 121,
      ms_completed = False, ms_created_at = 100, ms_updated_at = 100\<rparr>]"

definition seed_task_23 :: task where
  "seed_task_23 =
     \<lparr>task_id = 23, task_project_id = 17, task_milestone_id = Some 21,
      task_title = ''Setup Next.js project'',
      task_description = Some ''Initialize Next.js with TypeScript'',
      task_status = st_done, task_priority = pr_high, task_assignee_id = Some 13,
      task_due_date = Some 50, task_estimated_hours = Some 8, task_actual_hours = None,
      task_created_at = 100, task_updated_at = 100\<rparr>"

definition seed_task_24 :: task where
  "seed_task_24 =
     \<lparr>task_id = 24, task_project_id = 17, task_milestone_id = Some 21,
      task_title = ''Implement homepage'',
      task_description = Some ''Build the new homepage design'',
      task_status = st_inprogress, task_priority = pr_high, task_assignee_id = Some 13,
      task_due_date = Some 60, task_estimated_hours = Some 24, task_actual_hours = None,
      task_created_at = 100, task_updated_at = 100\<rparr>"

definition seed_task_26 :: task where
  "seed_task_26 =
     \<lparr>task_id = 26, task_project_id = 17, task_milestone_id = Some 21,
      task_title = ''User authentication'',
      task_description = Some ''Implement login/register flow'',
      task_status = st_todo, task_priority = pr_critical, task_assignee_id = None,
      task_due_date = Some 79, task_estimated_hours = Some 32, task_actual_hours = None,
      task_created_at = 100, task_updated_at = 100\<rparr>"

definition seed_task_comments :: "task_comment list" where
  "seed_task_comments =
    [\<lparr>tc_id = 5, tc_task_id = 24, tc_user_id = 13,
      tc_content = ''Started working on the hero section'',
      tc_created_at = 100, tc_updated_at = 100\<rparr>,
     \<lparr>tc_id = 6, tc_task_id = 24, tc_user_id = 12,
      tc_content = ''Looks great! Please also add the testimonials section'',
      tc_created_at = 100, tc_updated_at = 100\<rparr>]"

definition seed_event_7 :: activity_log where
  "seed_event_7 =
     \<lparr>al_id = 7, al_user_id = Some 12, al_project_id = Some 17, al_action = ''created'',
      al_entity_type = ''project'', al_entity_id = 17,
      al_details = Some [(''name'', ''Website Redesign'')], al_created_at = 100\<rparr>"

definition seed_event_8 :: activity_log where
  "seed_event_8 =
     \<lparr>al_id = 8, al_user_id = Some 13, al_project_id = Some 17,
      al_action = ''status_changed'', al_entity_type = ''task'', al_entity_id = 23,
      al_details = Some [(''from'', ''todo''), (''to'', ''done'')], al_created_at = 100\<rparr>"

definition seed_event_9 :: activity_log where
  "seed_event_9 =
     \<lparr>al_id = 9, al_user_id = Some 13, al_project_id = Some 17,
      al_action = ''status_changed'', al_entity_type = ''task'', al_entity_id = 24,
      al_details = Some [(''from'', ''todo''), (''to'', ''inprogress'')],
      al_created_at = 100\<rparr>"

definition seed_activity_logs :: "activity_log list" where
  "seed_activity_logs = [seed_event_7, seed_event_8, seed_event_9]"

definition seed_db :: database where
  "seed_db =
     \<lparr>users = seed_users, teams = seed_teams, team_members = seed_team_members,
      projects = seed_projects, project_members = seed_project_members,
      milestones = seed_milestones, tasks = [seed_task_23, seed_task_24, seed_task_26],
      task_comments = seed_task_comments, activity_logs = seed_activity_logs,
      time_logs = [], tags = [], task_tags = [], attachments = [], notifications = []\<rparr>"

text \<open>The sample data after the task 26 has gone from \<^verbatim>\<open>todo\<close> to \<^verbatim>\<open>done\<close> at time 200,
  on behalf of the manager 12, the event taking the identifier 60.\<close>

definition seed_db_done :: database where
  "seed_db_done = seed_db\<lparr>
       tasks := [seed_task_23, seed_task_24,
         seed_task_26\<lparr>task_status := st_done, task_actual_hours := Some 0,
                      task_updated_at := 200\<rparr>],
       activity_logs := seed_activity_logs @
         [\<lparr>al_id = 60, al_user_id = Some 12, al_project_id = Some 17,
           al_action = ''status_changed'', al_entity_type = ''task'', al_entity_id = 26,
           al_details = Some [(''from'', ''todo''), (''to'', ''done'')],
           al_created_at = 200\<rparr>]\<rparr>"

text \<open>The seed has no tags; the sample data with one tag, put on the task 24.\<close>

definition tagged_db :: database where
  "tagged_db = seed_db\<lparr>
     tags := [\<lparr>tag_id = 31, tag_name = ''frontend'', tag_color = ''#6B7280'',
               tag_description = None, tag_created_at = 100, tag_updated_at = 100\<rparr>],
     task_tags := [\<lparr>tt_id = 32, tt_task_id = 24, tt_tag_id = 31, tt_created_at = 100\<rparr>]\<rparr>"







text \<open>
  An activity feed over two projects: the event 70 of the project 61, then the events 71,
  72 and 73 of the project 62, all created at time 100; their identifiers serve as their
  insertion sequence numbers.
\<close>

definition feed_project :: "uuid \<Rightarrow> project" where
  "feed_project i =
     \<lparr>prj_id = i, prj_name = ''Feed'', prj_description = None, prj_status = ps_active,
      prj_priority = pr_medium, prj_start_date = None, prj_end_date = None,
      prj_budget = None, prj_owner_id = 12, prj_created_at = 100, prj_updated_at = 100\<rparr>"

definition feed_event :: "uuid \<Rightarrow> uuid \<Rightarrow> activity_log" where
  "feed_event i p =
     \<lparr>al_id = i, al_user_id = Some 12, al_project_id = Some p, al_action = ''updated'',
      al_entity_type = ''project'', al_entity_id = p, al_details = None,
      al_created_at = 100\<rparr>"

definition feed_db :: database where
  "feed_db =
     \<lparr>users = seed_users, teams = [], team_members = [],
      projects = [feed_project 61, feed_project 62], project_members = [],
      milestones = [], tasks = [], task_comments = [],
      activity_logs =
        [feed_event 70 61, feed_event 71 62, feed_event 72 62, feed_event 73 62],
      time_logs = [], tags = [], task_tags = [], attachments = [], notifications = []\<rparr>"

section \<open>Helper facts: what each deletion leaves in each table\<close>

lemmas seed_defs = seed_db_def seed_users_def seed_teams_def seed_team_members_def
  seed_projects_def seed_project_members_def seed_milestones_def seed_task_23_def
  seed_task_24_def seed_task_26_def seed_task_comments_def seed_activity_logs_def
  seed_event_7_def seed_event_8_def seed_event_9_def

lemma delete_tasks_where_sel:
  "tasks (delete_tasks_where P db) = filter (\<lambda>t. \<not> P t) (tasks db)"
  "milestones (delete_tasks_where P db) = milestones db"
  "project_members (delete_tasks_where P db) = project_members db"
  "activity_logs (delete_tasks_where P db) = activity_logs db"
  "team_members (delete_tasks_where P db) = team_members db"
  "tags (delete_tasks_where P db) = tags db"
  "task_tags (delete_tasks_where P db) =
     filter (\<lambda>x. tt_task_id x \<notin> set (map task_id (filter P (tasks db)))) (task_tags db)"
  by (simp_all add: delete_tasks_where_def Let_def)

lemma delete_milestones_where_sel:
  "tasks (delete_milestones_where now P db) =
     map (tasks_milestone_set_null now (map ms_id (filter P (milestones db)))) (tasks db)"
  "milestones (delete_milestones_where now P db) = filter (\<lambda>m. \<not> P m) (milestones db)"
  "project_members (delete_milestones_where now P db) = project_members db"
  "activity_logs (delete_milestones_where now P db) = activity_logs db"
  "team_members (delete_milestones_where now P db) = team_members db"
  "tags (delete_milestones_where now P db) = tags db"
  "task_tags (delete_milestones_where now P db) = task_tags db"
  by (simp_all add: delete_milestones_where_def Let_def)

lemma tasks_milestone_set_null_project:
  "task_project_id (tasks_milestone_set_null now gone t) = task_project_id t"
  by (simp add: tasks_milestone_set_null_def split: option.split)

lemma delete_project_sel:
  assumes "pid \<in> set (map prj_id (projects db))"
  shows "tasks (delete_project now pid db) =
           filter (\<lambda>t. task_project_id t \<noteq> pid)
             (map (tasks_milestone_set_null now
                (map ms_id (filter (\<lambda>m. ms_project_id m = pid) (milestones db)))) (tasks db))"
    and "milestones (delete_project now pid db) =
           filter (\<lambda>m. ms_project_id m \<noteq> pid) (milestones db)"
    and "project_members (delete_project now pid db) =
           filter (\<lambda>r. pm_project_id r \<noteq> pid) (project_members db)"
    and "activity_logs (delete_project now pid db) =
           filter (\<lambda>a. al_project_id a \<noteq> Some pid) (activity_logs db)"
  using assms
  by (simp_all add: delete_project_def Let_def delete_tasks_where_sel delete_milestones_where_sel)

section \<open>Deleting a project\<close>

text \<open>
  Claim C1. Deleting a project removes every task, milestone, project membership and
  activity event that references it: in the database after the deletion no row of
  \<^verbatim>\<open>tasks\<close>, \<^verbatim>\<open>milestones\<close>, \<^verbatim>\<open>project_members\<close> or \<^verbatim>\<open>activity_logs\<close> carries the
  project's id.
\<close>

theorem delete_project_cascades:
  assumes "pid \<in> set (map prj_id (projects db))"
  shows "pid \<notin> set (map task_project_id (tasks (delete_project now pid db)))
       \<and> pid \<notin> set (map ms_project_id (milestones (delete_project now pid db)))
       \<and> pid \<notin> set (map pm_project_id (project_members (delete_project now pid db)))
       \<and> Some pid \<notin> set (map al_project_id (activity_logs (delete_project now pid db)))"
  by (auto simp add: delete_project_sel [OF assms] tasks_milestone_set_null_project)

text \<open>The project 17 of the sample data, deleted at time 200.\<close>

theorem delete_project_cascades_witness:
  "17 \<in> set (map prj_id (projects seed_db))
   \<and> 17 \<notin> set (map task_project_id (tasks (delete_project 200 17 seed_db)))
   \<and> 17 \<notin> set (map ms_project_id (milestones (delete_project 200 17 seed_db)))
   \<and> 17 \<notin> set (map pm_project_id (project_members (delete_project 200 17 seed_db)))
   \<and> Some 17 \<notin> set (map al_project_id (activity_logs (delete_project 200 17 seed_db)))"
proof -
  have h: "17 \<in> set (map prj_id (projects seed_db))"
    by (simp add: seed_db_def seed_projects_def)
  show ?thesis
    using h delete_project_cascades [OF h, of 200] by blast
qed

section \<open>Deleting a user\<close>

text \<open>
  Claim C2. A delete request for a user who owns at least one project fails with
  \<open>ReferentialConflict\<close>, and the database after the failed request is the database
  before it: the user, the owned projects and their tasks are as they were.
\<close>

theorem delete_owner_rejected:
  assumes "uid \<in> set (map usr_id (users db))"
    and "p \<in> set (projects db)" and "prj_owner_id p = uid"
  shows "delete_user now uid db = Inl ReferentialConflict
       \<and> state_after db (delete_user now uid db) = db"
proof -
  have "\<exists>p \<in> set (projects db). prj_owner_id p = uid"
    using assms(2,3) by blast
  then have "delete_user now uid db = Inl ReferentialConflict"
    using assms(1) unfolding delete_user_def by simp
  then show ?thesis by (simp add: state_after_def)
qed

text \<open>The manager 12 of the sample data owns the project 17.\<close>

theorem delete_owner_rejected_witness:
  "12 \<in> set (map usr_id (users seed_db))
   \<and> hd (projects seed_db) \<in> set (projects seed_db)
   \<and> prj_owner_id (hd (projects seed_db)) = 12
   \<and> delete_user 200 12 seed_db = Inl ReferentialConflict
   \<and> state_after seed_db (delete_user 200 12 seed_db) = seed_db"
proof -
  have h1: "12 \<in> set (map usr_id (users seed_db))"
    by (simp add: seed_db_def seed_users_def)
  have h2: "hd (projects seed_db) \<in> set (projects seed_db)"
    by (simp add: seed_db_def seed_projects_def)
  have h3: "prj_owner_id (hd (projects seed_db)) = 12"
    by (simp add: seed_db_def seed_projects_def)
  show ?thesis using h1 h2 h3 delete_owner_rejected [OF h1 h2 h3, of 200] by blast
qed


text \<open>
  Claim C7. Deleting a user who owns no project succeeds, and in the one resulting
  database: the user is gone; every team and task and activity event is still there, with
  the lead, the assignee and the actor set to null exactly where they were that user; the
  user's team memberships, project memberships, comments, time entries, attachments and
  notifications are removed and no others; the projects are untouched, so nothing refers
  to the user any more.
\<close>

theorem delete_user_nullifies_and_cascades:
  assumes "uid \<in> set (map usr_id (users db))"
    and "uid \<notin> set (map prj_owner_id (projects db))"
  shows "\<exists>db'. delete_user now uid db = Inr db'
    \<and> uid \<notin> set (map usr_id (users db'))
    \<and> map team_id (teams db') = map team_id (teams db)
    \<and> map team_lead_id (teams db') =
        map (\<lambda>g. if team_lead_id g = Some uid then None else team_lead_id g) (teams db)
    \<and> map task_id (tasks db') = map task_id (tasks db)
    \<and> map task_assignee_id (tasks db') =
        map (\<lambda>t. if task_assignee_id t = Some uid then None else task_assignee_id t) (tasks db)
    \<and> map al_id (activity_logs db') = map al_id (activity_logs db)
    \<and> map al_user_id (activity_logs db') =
        map (\<lambda>a. if al_user_id a = Some uid then None else al_user_id a) (activity_logs db)
    \<and> team_members db' = filter (\<lambda>r. tm_user_id r \<noteq> uid) (team_members db)
    \<and> project_members db' = filter (\<lambda>r. pm_user_id r \<noteq> uid) (project_members db)
    \<and> task_comments db' = filter (\<lambda>c. tc_user_id c \<noteq> uid) (task_comments db)
    \<and> time_logs db' = filter (\<lambda>l. tl_user_id l \<noteq> uid) (time_logs db)
    \<and> attachments db' = filter (\<lambda>a. att_uploaded_by a \<noteq> uid) (attachments db)
    \<and> notifications db' = filter (\<lambda>n. ntf_user_id n \<noteq> uid) (notifications db)
    \<and> projects db' = projects db"
proof -
  have "\<not> (\<exists>p \<in> set (projects db). prj_owner_id p = uid)"
    using assms(2) by auto
  then have "delete_user now uid db = Inr (db\<lparr>
        users := filter (\<lambda>u. usr_id u \<noteq> uid) (users db),
        teams := map (teams_lead_set_null now uid) (teams db),
        team_members := filter (\<lambda>r. tm_user_id r \<noteq> uid) (team_members db),
        project_members := filter (\<lambda>r. pm_user_id r \<noteq> uid) (project_members db),
        tasks := map (tasks_assignee_set_null now uid) (tasks db),
        task_comments := filter (\<lambda>c. tc_user_id c \<noteq> uid) (task_comments db),
        activity_logs := map (activity_logs_user_set_null uid) (activity_logs db),
        time_logs := filter (\<lambda>l. tl_user_id l \<noteq> uid) (time_logs db),
        attachments := filter (\<lambda>a. att_uploaded_by a \<noteq> uid) (attachments db),
        notifications := filter (\<lambda>n. ntf_user_id n \<noteq> uid) (notifications db)\<rparr>)"
    using assms(1) unfolding delete_user_def by simp
  then show ?thesis
    by (auto simp add: teams_lead_set_null_def tasks_assignee_set_null_def
        activity_logs_user_set_null_def)
qed

text \<open>The developer 13 of the sample data owns no project.\<close>

theorem delete_user_nullifies_and_cascades_witness:
  "13 \<in> set (map usr_id (users seed_db))
   \<and> 13 \<notin> set (map prj_owner_id (projects seed_db))
   \<and> (\<exists>db'. delete_user 200 13 seed_db = Inr db'
    \<and> 13 \<notin> set (map usr_id (users db'))
    \<and> map team_id (teams db') = map team_id (teams seed_db)
    \<and> map team_lead_id (teams db') =
        map (\<lambda>g. if team_lead_id g = Some 13 then None else team_lead_id g) (teams seed_db)
    \<and> map task_id (tasks db') = map task_id (tasks seed_db)
    \<and> map task_assignee_id (tasks db') =
        map (\<lambda>t. if task_assignee_id t = Some 13 then None else task_assignee_id t)
          (tasks seed_db)
    \<and> map al_id (activity_logs db') = map al_id (activity_logs seed_db)
    \<and> map al_user_id (activity_logs db') =
        map (\<lambda>a. if al_user_id a = Some 13 then None else al_user_id a)
          (activity_logs seed_db)
    \<and> team_members db' = filter (\<lambda>r. tm_user_id r \<noteq> 13) (team_members seed_db)
    \<and> project_members db' = filter (\<lambda>r. pm_user_id r \<noteq> 13) (project_members seed_db)
    \<and> task_comments db' = filter (\<lambda>c. tc_user_id c \<noteq> 13) (task_comments seed_db)
    \<and> time_logs db' = filter (\<lambda>l. tl_user_id l \<noteq> 13) (time_logs seed_db)
    \<and> attachments db' = filter (\<lambda>a. att_uploaded_by a \<noteq> 13) (attachments seed_db)
    \<and> notifications db' = filter (\<lambda>n. ntf_user_id n \<noteq> 13) (notifications seed_db)
    \<and> projects db' = projects seed_db)"
proof -
  have h1: "13 \<in> set (map usr_id (users seed_db))"
    by (simp add: seed_db_def seed_users_def)
  have h2: "13 \<notin> set (map prj_owner_id (projects seed_db))"
    by (simp add: seed_db_def seed_projects_def)
  show ?thesis
    using h1 h2 delete_user_nullifies_and_cascades [OF h1 h2, of 200] by blast
qed

section \<open>Deleting a milestone\<close>

text \<open>
  Claim C8, as amended. Deleting a milestone deletes no task; a task that referenced the
  milestone has \<^verbatim>\<open>milestone_id\<close> null and \<^verbatim>\<open>updated_at\<close> set to the time of the deletion
  (the update runs the trigger \<^verbatim>\<open>update_tasks_updated_at\<close>), every other field as
  before; every other task is unchanged.
\<close>

theorem delete_milestone_nullifies:
  assumes "mid \<in> set (map ms_id (milestones db))"
  shows "tasks (delete_milestone now mid db) =
     map (\<lambda>t. if task_milestone_id t = Some mid
               then t\<lparr>task_milestone_id := None, task_updated_at := now\<rparr> else t) (tasks db)"
proof -
  have "set (map ms_id (filter (\<lambda>m. ms_id m = mid) (milestones db))) = {mid}"
    using assms by auto
  then have "tasks_milestone_set_null now
       (map ms_id (filter (\<lambda>m. ms_id m = mid) (milestones db)))
     = (\<lambda>t. if task_milestone_id t = Some mid
             then t\<lparr>task_milestone_id := None, task_updated_at := now\<rparr> else t)"
    by (auto simp: tasks_milestone_set_null_def fun_eq_iff split: option.split)
  then show ?thesis
    using assms by (simp add: delete_milestone_def delete_milestones_where_sel)
qed

text \<open>The milestone 21 of the sample data, deleted at time 200.\<close>

theorem delete_milestone_nullifies_witness:
  "21 \<in> set (map ms_id (milestones seed_db))
   \<and> tasks (delete_milestone 200 21 seed_db) =
     map (\<lambda>t. if task_milestone_id t = Some 21
               then t\<lparr>task_milestone_id := None, task_updated_at := 200\<rparr> else t)
       (tasks seed_db)"
proof -
  have h: "21 \<in> set (map ms_id (milestones seed_db))"
    by (simp add: seed_db_def seed_milestones_def)
  show ?thesis using h delete_milestone_nullifies [OF h, of 200] by blast
qed

text \<open>
  Claim C8, as stated, fails: the task 26 references the milestone 21 and was last
  modified at time 100; after the milestone is deleted at time 200 the row with the id 26
  has a null \<^verbatim>\<open>milestone_id\<close>, but its \<^verbatim>\<open>updated_at\<close> is 200, so the task with only
  \<^verbatim>\<open>milestone_id\<close> changed is not in the table.
\<close>

theorem delete_milestone_changes_updated_at:
  "21 \<in> set (map ms_id (milestones seed_db))
   \<and> tasks seed_db ! 2 = seed_task_26
   \<and> task_milestone_id seed_task_26 = Some 21
   \<and> task_updated_at seed_task_26 = 100
   \<and> task_id (tasks (delete_milestone 200 21 seed_db) ! 2) = 26
   \<and> task_milestone_id (tasks (delete_milestone 200 21 seed_db) ! 2) = None
   \<and> task_updated_at (tasks (delete_milestone 200 21 seed_db) ! 2) = 200
   \<and> seed_task_26\<lparr>task_milestone_id := None\<rparr> \<notin> set (tasks (delete_milestone 200 21 seed_db))"
  by (simp add: seed_defs delete_milestone_def delete_milestones_where_def
      tasks_milestone_set_null_def)


section \<open>Unique keys\<close>

lemma delete_project_keys:
  "team_members (delete_project now pid db) = team_members db"
  "tags (delete_project now pid db) = tags db"
  "\<exists>P. project_members (delete_project now pid db) = filter P (project_members db)"
  "\<exists>P. task_tags (delete_project now pid db) = filter P (task_tags db)"
proof -
  show "team_members (delete_project now pid db) = team_members db"
    and "tags (delete_project now pid db) = tags db"
    by (simp_all add: delete_project_def Let_def delete_tasks_where_sel
        delete_milestones_where_sel)
  show "\<exists>P. project_members (delete_project now pid db) = filter P (project_members db)"
  proof (cases "pid \<in> set (map prj_id (projects db))")
    case True
    then show ?thesis using delete_project_sel(3) by blast
  next
    case False
    then have "project_members (delete_project now pid db)
        = filter (\<lambda>_. True) (project_members db)"
      by (simp add: delete_project_def)
    then show ?thesis by blast
  qed
  show "\<exists>P. task_tags (delete_project now pid db) = filter P (task_tags db)"
  proof (cases "pid \<in> set (map prj_id (projects db))")
    case True
    then have "task_tags (delete_project now pid db) =
        filter (\<lambda>x. tt_task_id x \<notin> set (map task_id (filter (\<lambda>t. task_project_id t = pid)
          (map (tasks_milestone_set_null now
              (map ms_id (filter (\<lambda>m. ms_project_id m = pid) (milestones db)))) (tasks db)))))
          (task_tags db)"
      by (simp add: delete_project_def Let_def delete_tasks_where_sel
          delete_milestones_where_sel)
    then show ?thesis by blast
  next
    case False
    then have "task_tags (delete_project now pid db) = filter (\<lambda>_. True) (task_tags db)"
      by (simp add: delete_project_def)
    then show ?thesis by blast
  qed
qed

lemma schema_unique_filtered:
  assumes "schema_unique db"
    and "\<exists>P. team_members db' = filter P (team_members db)"
    and "\<exists>P. project_members db' = filter P (project_members db)"
    and "\<exists>P. task_tags db' = filter P (task_tags db)"
    and "\<exists>P. tags db' = filter P (tags db)"
  shows "schema_unique db'"
  using assms unfolding schema_unique_def by (auto simp: distinct_map_filter)

lemma same_as_filter: "xs = ys \<Longrightarrow> \<exists>P. xs = filter P ys"
  by (rule exI [of _ "\<lambda>_. True"]) simp

lemma is_filter: "xs = filter P ys \<Longrightarrow> \<exists>P. xs = filter P ys"
  by blast

lemma schema_unique_delete_project:
  "schema_unique db \<Longrightarrow> schema_unique (delete_project now pid db)"
  by (erule schema_unique_filtered)
     (simp_all add: delete_project_keys same_as_filter)

lemma schema_unique_delete_milestone:
  "schema_unique db \<Longrightarrow> schema_unique (delete_milestone now mid db)"
  by (erule schema_unique_filtered)
     (simp_all add: delete_milestone_def delete_milestones_where_sel same_as_filter)

lemma schema_unique_delete_task:
  "schema_unique db \<Longrightarrow> schema_unique (delete_task tid db)"
  by (erule schema_unique_filtered)
     (auto simp add: delete_task_def delete_tasks_where_sel same_as_filter intro: is_filter)

lemma schema_unique_delete_tag:
  "schema_unique db \<Longrightarrow> schema_unique (delete_tag gid db)"
  by (erule schema_unique_filtered)
     (auto simp add: delete_tag_def same_as_filter intro: is_filter)

lemma schema_unique_delete_team:
  "schema_unique db \<Longrightarrow> schema_unique (delete_team gid db)"
  by (erule schema_unique_filtered)
     (auto simp add: delete_team_def same_as_filter intro: is_filter)

lemma schema_unique_delete_user:
  "schema_unique db \<Longrightarrow> schema_unique (state_after db (delete_user now uid db))"
  by (erule schema_unique_filtered)
     (auto simp add: delete_user_def state_after_def same_as_filter intro: is_filter)

lemma schema_unique_insert_team_member:
  "schema_unique db \<Longrightarrow> schema_unique (state_after db (insert_team_member r db))"
  unfolding schema_unique_def insert_team_member_def state_after_def by auto

lemma schema_unique_insert_project_member:
  "schema_unique db \<Longrightarrow> schema_unique (state_after db (insert_project_member r db))"
  unfolding schema_unique_def insert_project_member_def state_after_def by auto

lemma schema_unique_insert_task_tag:
  "schema_unique db \<Longrightarrow> schema_unique (state_after db (insert_task_tag r db))"
  unfolding schema_unique_def insert_task_tag_def state_after_def by auto

lemma schema_unique_insert_tag:
  "schema_unique db \<Longrightarrow> schema_unique (state_after db (insert_tag r db))"
  unfolding schema_unique_def insert_tag_def state_after_def by auto

lemma rename_keeps_names_distinct:
  assumes "distinct (map tag_id ts)" and "distinct (map tag_name ts)"
    and "\<forall>g \<in> set ts. tag_id g \<noteq> gid \<longrightarrow> tag_name g \<noteq> name"
  shows "distinct (map tag_name
     (map (\<lambda>g. if tag_id g = gid
                then g\<lparr>tag_name := name, tag_color := color,
                       tag_description := description, tag_updated_at := now\<rparr>
                else g) ts))"
  using assms
proof (induction ts)
  case Nil
  then show ?case by simp
next
  case (Cons g ts)
  then show ?case by (auto simp: image_iff)
qed

lemma schema_unique_update_tag:
  assumes "schema_unique db"
  shows "schema_unique (state_after db (update_tag now gid name color description db))"
proof (cases "update_tag now gid name color description db")
  case (Inl e)
  then show ?thesis using assms by (simp add: state_after_def)
next
  case (Inr db')
  show ?thesis
  proof (cases "gid \<in> set (map tag_id (tags db))")
    case False
    then show ?thesis using assms by (simp add: update_tag_def state_after_def)
  next
    case True
    with Inr have free: "\<forall>g \<in> set (tags db). tag_id g \<noteq> gid \<longrightarrow> tag_name g \<noteq> name"
      by (auto simp: update_tag_def split: if_splits)
    let ?upd = "\<lambda>g. if tag_id g = gid
                then g\<lparr>tag_name := name, tag_color := color,
                       tag_description := description, tag_updated_at := now\<rparr>
                else g"
    define ts' where "ts' = map ?upd (tags db)"
    from True free have db': "db' = db\<lparr>tags := ts'\<rparr>"
      using Inr by (auto simp: update_tag_def ts'_def split: if_splits)
    have ids: "map tag_id ts' = map tag_id (tags db)"
      unfolding ts'_def by (induction "tags db") auto
    have names: "distinct (map tag_name ts')"
      unfolding ts'_def using assms free
      by (intro rename_keeps_names_distinct) (simp_all add: schema_unique_def)
    show ?thesis
      using assms ids names unfolding Inr db' by (simp add: state_after_def schema_unique_def)
  qed
qed

lemma schema_unique_apply_op:
  "schema_unique db \<Longrightarrow> schema_unique (state_after db (apply_op now c db))"
proof (cases c)
qed (simp_all add: schema_unique_insert_team_member schema_unique_insert_project_member
      schema_unique_insert_task_tag schema_unique_insert_tag schema_unique_update_tag
      schema_unique_delete_user,
     simp_all add: state_after_def schema_unique_delete_project schema_unique_delete_milestone
      schema_unique_delete_task schema_unique_delete_tag schema_unique_delete_team)


text \<open>
  Claim C9. The pairs \<^verbatim>\<open>(team_id, user_id)\<close> of \<^verbatim>\<open>team_members\<close>,
  \<^verbatim>\<open>(project_id, user_id)\<close> of \<^verbatim>\<open>project_members\<close>, \<^verbatim>\<open>(task_id, tag_id)\<close> of
  \<^verbatim>\<open>task_tags\<close> and the names of \<^verbatim>\<open>tags\<close> are unique after every operation, committed
  or rejected, when they were before it; and an insert that repeats such a pair or name is
  rejected and leaves the database as it was.
\<close>

theorem unique_keys_invariant:
  assumes "schema_unique db"
  shows "schema_unique (state_after db (apply_op now c db))
    \<and> ((tm_team_id r, tm_user_id r) \<in> set (map (\<lambda>x. (tm_team_id x, tm_user_id x)) (team_members db))
        \<longrightarrow> apply_op now (InsertTeamMember r) db = Inl ValidationError
          \<and> state_after db (apply_op now (InsertTeamMember r) db) = db)
    \<and> ((pm_project_id q, pm_user_id q)
          \<in> set (map (\<lambda>x. (pm_project_id x, pm_user_id x)) (project_members db))
        \<longrightarrow> apply_op now (InsertProjectMember q) db = Inl ValidationError
          \<and> state_after db (apply_op now (InsertProjectMember q) db) = db)
    \<and> ((tt_task_id x, tt_tag_id x) \<in> set (map (\<lambda>y. (tt_task_id y, tt_tag_id y)) (task_tags db))
        \<longrightarrow> apply_op now (InsertTaskTag x) db = Inl ValidationError
          \<and> state_after db (apply_op now (InsertTaskTag x) db) = db)
    \<and> (tag_name g \<in> set (map tag_name (tags db))
        \<longrightarrow> apply_op now (InsertTag g) db = Inl ValidationError
          \<and> state_after db (apply_op now (InsertTag g) db) = db)"
proof (intro conjI impI)
  show "schema_unique (state_after db (apply_op now c db))"
    using assms by (rule schema_unique_apply_op)
next
  assume "(tm_team_id r, tm_user_id r)
    \<in> set (map (\<lambda>x. (tm_team_id x, tm_user_id x)) (team_members db))"
  then have "\<exists>x \<in> set (team_members db). tm_team_id x = tm_team_id r \<and> tm_user_id x = tm_user_id r"
    by auto
  then show "apply_op now (InsertTeamMember r) db = Inl ValidationError"
    by (simp add: insert_team_member_def)
  then show "state_after db (apply_op now (InsertTeamMember r) db) = db"
    by (simp add: state_after_def)
next
  assume "(pm_project_id q, pm_user_id q)
    \<in> set (map (\<lambda>x. (pm_project_id x, pm_user_id x)) (project_members db))"
  then have "\<exists>x \<in> set (project_members db).
      pm_project_id x = pm_project_id q \<and> pm_user_id x = pm_user_id q"
    by auto
  then show "apply_op now (InsertProjectMember q) db = Inl ValidationError"
    by (simp add: insert_project_member_def)
  then show "state_after db (apply_op now (InsertProjectMember q) db) = db"
    by (simp add: state_after_def)
next
  assume "(tt_task_id x, tt_tag_id x)
    \<in> set (map (\<lambda>y. (tt_task_id y, tt_tag_id y)) (task_tags db))"
  then have "\<exists>y \<in> set (task_tags db). tt_task_id y = tt_task_id x \<and> tt_tag_id y = tt_tag_id x"
    by auto
  then show "apply_op now (InsertTaskTag x) db = Inl ValidationError"
    by (simp add: insert_task_tag_def)
  then show "state_after db (apply_op now (InsertTaskTag x) db) = db"
    by (simp add: state_after_def)
next
  assume "tag_name g \<in> set (map tag_name (tags db))"
  then show "apply_op now (InsertTag g) db = Inl ValidationError"
    by (simp add: insert_tag_def)
  then show "state_after db (apply_op now (InsertTag g) db) = db"
    by (simp add: state_after_def)
qed

text \<open>The sample data with its tag: every repeated key is refused.\<close>

lemma schema_unique_tagged_db: "schema_unique tagged_db"
  by (simp add: schema_unique_def tagged_db_def seed_db_def seed_team_members_def
      seed_project_members_def)

theorem unique_keys_invariant_witness:
  "schema_unique tagged_db
   \<and> (15, 13) \<in> set (map (\<lambda>x. (tm_team_id x, tm_user_id x)) (team_members tagged_db))
   \<and> (17, 13) \<in> set (map (\<lambda>x. (pm_project_id x, pm_user_id x)) (project_members tagged_db))
   \<and> (24, 31) \<in> set (map (\<lambda>y. (tt_task_id y, tt_tag_id y)) (task_tags tagged_db))
   \<and> ''frontend'' \<in> set (map tag_name (tags tagged_db))
   \<and> schema_unique (state_after tagged_db (apply_op 200 (DeleteUser 13) tagged_db))
   \<and> apply_op 200 (InsertTeamMember
        \<lparr>tm_id = 40, tm_team_id = 15, tm_user_id = 13, tm_role = tm_member, tm_joined_at = 200\<rparr>)
        tagged_db = Inl ValidationError
   \<and> apply_op 200 (InsertProjectMember
        \<lparr>pm_id = 41, pm_project_id = 17, pm_user_id = 13, pm_role = None, pm_joined_at = 200\<rparr>)
        tagged_db = Inl ValidationError
   \<and> apply_op 200 (InsertTaskTag
        \<lparr>tt_id = 42, tt_task_id = 24, tt_tag_id = 31, tt_created_at = 200\<rparr>)
        tagged_db = Inl ValidationError
   \<and> apply_op 200 (InsertTag
        \<lparr>tag_id = 43, tag_name = ''frontend'', tag_color = ''#FF0000'', tag_description = None,
         tag_created_at = 200, tag_updated_at = 200\<rparr>)
        tagged_db = Inl ValidationError"
proof -
  have h: "schema_unique tagged_db"
    by (rule schema_unique_tagged_db)
  have m: "(15, 13) \<in> set (map (\<lambda>x. (tm_team_id x, tm_user_id x)) (team_members tagged_db))"
    "(17, 13) \<in> set (map (\<lambda>x. (pm_project_id x, pm_user_id x)) (project_members tagged_db))"
    "(24, 31) \<in> set (map (\<lambda>y. (tt_task_id y, tt_tag_id y)) (task_tags tagged_db))"
    "''frontend'' \<in> set (map tag_name (tags tagged_db))"
    by (simp_all add: tagged_db_def seed_db_def seed_team_members_def seed_project_members_def)
  show ?thesis
    using h m unique_keys_invariant [OF h, of 200 "DeleteUser 13"
      "\<lparr>tm_id = 40, tm_team_id = 15, tm_user_id = 13, tm_role = tm_member, tm_joined_at = 200\<rparr>"
      "\<lparr>pm_id = 41, pm_project_id = 17, pm_user_id = 13, pm_role = None, pm_joined_at = 200\<rparr>"
      "\<lparr>tt_id = 42, tt_task_id = 24, tt_tag_id = 31, tt_created_at = 200\<rparr>"
      "\<lparr>tag_id = 43, tag_name = ''frontend'', tag_color = ''#FF0000'', tag_description = None,
         tag_created_at = 200, tag_updated_at = 200\<rparr>"]
    by simp
qed



section \<open>Time Ledger: validation and totals\<close>

lemma seed_task_ids: "map task_id (tasks seed_db) = [23, 24, 26]"
  by (simp add: seed_defs)

lemma seed_user_ids: "map usr_id (users seed_db) = [12, 13]"
  by (simp add: seed_defs)

lemma seed_time_logs: "time_logs seed_db = []"
  by (simp add: seed_db_def)

lemma valid_hours_iff: "valid_hours h \<longleftrightarrow> 1 / 4 \<le> h \<and> h \<le> 24 \<and> 4 * h \<in> \<int>"
  unfolding valid_hours_def
  by (metis Ints_of_int Ints_cases floor_of_int)

text \<open>
  Claim C3. A time entry that \<^verbatim>\<open>recordTime\<close> stores has hours between 0.25 and 24 that
  are a whole number of quarter hours, and it is the one row added; a request whose hours
  are outside that domain is rejected with \<open>ValidationError\<close>, the database (so the
  table of entries) is as before, and every total is unchanged.
\<close>

theorem recordTime_validates:
  "(recordTime now eid tid uid h day description db = Inr db'
      \<longrightarrow> 1 / 4 \<le> h \<and> h \<le> 24 \<and> 4 * h \<in> \<int>
        \<and> time_logs db' = time_logs db @
            [\<lparr>tl_id = eid, tl_task_id = tid, tl_user_id = uid, tl_hours = h, tl_date = day,
              tl_description = description, tl_created_at = now, tl_updated_at = now\<rparr>])
   \<and> (\<not> (1 / 4 \<le> h \<and> h \<le> 24 \<and> 4 * h \<in> \<int>)
      \<longrightarrow> recordTime now eid tid uid h day description db = Inl ValidationError
        \<and> state_after db (recordTime now eid tid uid h day description db) = db
        \<and> total t (state_after db (recordTime now eid tid uid h day description db))
            = total t db)"
proof (intro conjI impI)
  assume ok: "recordTime now eid tid uid h day description db = Inr db'"
  then have v: "valid_hours h"
    by (auto simp: recordTime_def split: if_splits)
  then show "1 / 4 \<le> h" and "h \<le> 24" and "4 * h \<in> \<int>"
    by (simp_all add: valid_hours_iff)
  from ok show "time_logs db' = time_logs db @
            [\<lparr>tl_id = eid, tl_task_id = tid, tl_user_id = uid, tl_hours = h, tl_date = day,
              tl_description = description, tl_created_at = now, tl_updated_at = now\<rparr>]"
    by (auto simp: recordTime_def split: if_splits)
next
  assume "\<not> (1 / 4 \<le> h \<and> h \<le> 24 \<and> 4 * h \<in> \<int>)"
  then have "\<not> valid_hours h"
    by (simp add: valid_hours_iff)
  then show r: "recordTime now eid tid uid h day description db = Inl ValidationError"
    by (simp add: recordTime_def)
  then show "state_after db (recordTime now eid tid uid h day description db) = db"
    by (simp add: state_after_def)
  from r show "total t (state_after db (recordTime now eid tid uid h day description db))
      = total t db"
    by (simp add: state_after_def)
qed


text \<open>On the sample data, 2.5 hours on the task 24 are stored and 0.1 hours are refused.\<close>

theorem recordTime_validates_witness:
  "recordTime 200 50 24 13 (5 / 2) 61 None seed_db =
      Inr (seed_db\<lparr>time_logs :=
        [\<lparr>tl_id = 50, tl_task_id = 24, tl_user_id = 13, tl_hours = 5 / 2, tl_date = 61,
          tl_description = None, tl_created_at = 200, tl_updated_at = 200\<rparr>]\<rparr>)
   \<and> (1 / 4 :: rat) \<le> 5 / 2 \<and> (5 / 2 :: rat) \<le> 24 \<and> 4 * (5 / 2 :: rat) \<in> \<int>
   \<and> \<not> (1 / 4 \<le> (1 / 10 :: rat) \<and> (1 / 10 :: rat) \<le> 24 \<and> 4 * (1 / 10 :: rat) \<in> \<int>)
   \<and> recordTime 200 51 24 13 (1 / 10) 61 None seed_db = Inl ValidationError
   \<and> state_after seed_db (recordTime 200 51 24 13 (1 / 10) 61 None seed_db) = seed_db
   \<and> total 24 (state_after seed_db (recordTime 200 51 24 13 (1 / 10) 61 None seed_db))
       = total 24 seed_db"
proof -
  have a: "recordTime 200 50 24 13 (5 / 2) 61 None seed_db =
      Inr (seed_db\<lparr>time_logs :=
        [\<lparr>tl_id = 50, tl_task_id = 24, tl_user_id = 13, tl_hours = 5 / 2, tl_date = 61,
          tl_description = None, tl_created_at = 200, tl_updated_at = 200\<rparr>]\<rparr>)"
    by (simp add: recordTime_def valid_hours_def seed_task_ids seed_user_ids seed_time_logs)
  have b: "\<not> (1 / 4 \<le> (1 / 10 :: rat) \<and> (1 / 10 :: rat) \<le> 24 \<and> 4 * (1 / 10 :: rat) \<in> \<int>)"
    by simp
  show ?thesis
    using a b
      recordTime_validates [of 200 50 24 13 "5 / 2" 61 None seed_db
        "seed_db\<lparr>time_logs :=
        [\<lparr>tl_id = 50, tl_task_id = 24, tl_user_id = 13, tl_hours = 5 / 2, tl_date = 61,
          tl_description = None, tl_created_at = 200, tl_updated_at = 200\<rparr>]\<rparr>" 24]
      recordTime_validates [of 200 51 24 13 "1 / 10" 61 None seed_db seed_db 24]
    by blast
qed


lemma ledger_step_frame:
  "tasks (ledger_step c db) = tasks db" "users (ledger_step c db) = users db"
  by (cases c; simp add: state_after_def recordTime_def deleteTimeEntry_def)+

declare ledger_step.simps [simp del]

lemma recorded_frame:
  "tasks db' = tasks db \<Longrightarrow> users db' = users db \<Longrightarrow> recorded db' cs = recorded db cs"
  by (induction db cs rule: recorded.induct) simp_all

lemma kept_Record: "kept db (Record now eid tid uid h day description # cs) = kept db cs"
  by (simp add: kept_def)

lemma ledger_step_Delete:
  "time_logs (ledger_step (Delete eid) db) = filter (\<lambda>l. tl_id l \<noteq> eid) (time_logs db)"
proof (cases "eid \<in> set (map tl_id (time_logs db))")
  case True
  then show ?thesis by (simp add: ledger_step.simps deleteTimeEntry_def state_after_def)
next
  case False
  then have "filter (\<lambda>l. tl_id l \<noteq> eid) (time_logs db) = time_logs db"
    by (auto simp: filter_id_conv)
  with False show ?thesis by (simp add: ledger_step.simps deleteTimeEntry_def state_after_def)
qed

lemma kept_Delete: "kept (ledger_step (Delete eid) db) cs = kept db (Delete eid # cs)"
  unfolding kept_def ledger_step_Delete by (auto intro: filter_cong)

lemma ledger_step_Record:
  assumes "eid \<notin> set (map tl_id (time_logs db))"
  shows "time_logs (ledger_step (Record now eid tid uid h day description) db) =
     time_logs db @
       (if valid_hours h \<and> tid \<in> set (map task_id (tasks db))
           \<and> uid \<in> set (map usr_id (users db))
        then [\<lparr>tl_id = eid, tl_task_id = tid, tl_user_id = uid, tl_hours = h,
               tl_date = day, tl_description = description, tl_created_at = now,
               tl_updated_at = now\<rparr>]
        else [])"
  using assms by (simp add: ledger_step.simps recordTime_def state_after_def)

lemma ledger_run_time_logs:
  assumes "distinct (record_ids cs)"
    and "set (record_ids cs) \<inter> set (map tl_id (time_logs db)) = {}"
  shows "time_logs (ledger_run cs db) = kept db cs @ recorded db cs"
  using assms
proof (induction cs arbitrary: db)
  case Nil
  show ?case by (simp add: kept_def)
next
  case (Cons c cs)
  show ?case
  proof (cases c)
    case (Delete eid)
    from Cons.prems have d: "distinct (record_ids cs)"
      and dj: "set (record_ids cs) \<inter> set (map tl_id (time_logs db)) = {}"
      by (simp_all add: Delete)
    have "set (map tl_id (time_logs (ledger_step c db))) \<subseteq> set (map tl_id (time_logs db))"
      unfolding Delete ledger_step_Delete by auto
    with dj have "set (record_ids cs) \<inter> set (map tl_id (time_logs (ledger_step c db))) = {}"
      by blast
    with d have "time_logs (ledger_run cs (ledger_step c db))
        = kept (ledger_step c db) cs @ recorded (ledger_step c db) cs"
      by (rule Cons.IH)
    then show ?thesis
      by (simp add: Delete kept_Delete recorded_frame [OF ledger_step_frame])
  next
    case (Record now eid tid uid h day description)
    let ?db1 = "ledger_step c db"
    from Cons.prems have fresh: "eid \<notin> set (map tl_id (time_logs db))"
      and later: "eid \<notin> set (record_ids cs)" and d: "distinct (record_ids cs)"
      by (auto simp: Record)
    have logs: "time_logs ?db1 = time_logs db @
       (if valid_hours h \<and> tid \<in> set (map task_id (tasks db))
           \<and> uid \<in> set (map usr_id (users db))
        then [\<lparr>tl_id = eid, tl_task_id = tid, tl_user_id = uid, tl_hours = h,
               tl_date = day, tl_description = description, tl_created_at = now,
               tl_updated_at = now\<rparr>]
        else [])"
      unfolding Record by (rule ledger_step_Record [OF fresh])
    then have "set (map tl_id (time_logs ?db1)) \<subseteq> insert eid (set (map tl_id (time_logs db)))"
      by auto
    moreover from Cons.prems have "set (record_ids cs) \<inter> set (map tl_id (time_logs db)) = {}"
      by (auto simp: Record)
    ultimately have "set (record_ids cs) \<inter> set (map tl_id (time_logs ?db1)) = {}"
      using later by blast
    with d have "time_logs (ledger_run cs ?db1) = kept ?db1 cs @ recorded ?db1 cs"
      by (rule Cons.IH)
    moreover have "recorded ?db1 cs = recorded db cs"
      by (rule recorded_frame [OF ledger_step_frame])
    moreover have "kept ?db1 cs = kept db cs @
       (if valid_hours h \<and> tid \<in> set (map task_id (tasks db))
           \<and> uid \<in> set (map usr_id (users db)) \<and> Delete eid \<notin> set cs
        then [\<lparr>tl_id = eid, tl_task_id = tid, tl_user_id = uid, tl_hours = h,
               tl_date = day, tl_description = description, tl_created_at = now,
               tl_updated_at = now\<rparr>]
        else [])"
      unfolding kept_def logs by simp
    ultimately show ?thesis
      by (simp add: Record kept_Record)
  qed
qed


text \<open>
  Claim C5. After any sequence of record and delete calls, in any order, the total of a
  task is the exact sum of the hours of its entries that have not been deleted: those
  present at the start that no call deletes, and those of the accepted record calls that
  no later call deletes. The identifiers drawn for new entries are fresh: distinct from
  each other and from those of the entries present at the start.
\<close>

theorem total_is_sum_of_surviving_entries:
  assumes "distinct (record_ids cs)"
    and "set (record_ids cs) \<inter> set (map tl_id (time_logs db)) = {}"
  shows "total tid (ledger_run cs db) =
     sum_list (map tl_hours (filter (\<lambda>l. tl_task_id l = tid) (kept db cs)))
     + sum_list (map tl_hours (filter (\<lambda>l. tl_task_id l = tid) (recorded db cs)))"
  unfolding total_def ledger_run_time_logs [OF assms] by simp


text \<open>Recording 2.5 and then 1.25 hours on the task 24 gives the total 3.75; deleting the
  first entry afterwards gives 1.25.\<close>

theorem total_is_sum_of_surviving_entries_witness:
  "distinct (record_ids [Record 200 50 24 13 (5 / 2) 61 None, Record 201 51 24 13 (5 / 4) 61 None])
   \<and> set (record_ids [Record 200 50 24 13 (5 / 2) 61 None, Record 201 51 24 13 (5 / 4) 61 None])
        \<inter> set (map tl_id (time_logs seed_db)) = {}
   \<and> total 24 (ledger_run
        [Record 200 50 24 13 (5 / 2) 61 None, Record 201 51 24 13 (5 / 4) 61 None] seed_db)
       = 15 / 4
   \<and> total 24 (ledger_run
        [Record 200 50 24 13 (5 / 2) 61 None, Record 201 51 24 13 (5 / 4) 61 None, Delete 50]
        seed_db) = 5 / 4"
proof -
  let ?cs = "[Record 200 50 24 13 (5 / 2) 61 None, Record 201 51 24 13 (5 / 4) 61 None]"
  have h1: "distinct (record_ids ?cs)" by simp
  have h2: "set (record_ids ?cs) \<inter> set (map tl_id (time_logs seed_db)) = {}"
    by (simp add: seed_time_logs)
  have g1: "distinct (record_ids (?cs @ [Delete 50]))" by simp
  have g2: "set (record_ids (?cs @ [Delete 50])) \<inter> set (map tl_id (time_logs seed_db)) = {}"
    by (simp add: seed_time_logs)
  show ?thesis
    using h1 h2 total_is_sum_of_surviving_entries [OF h1 h2, of 24]
      total_is_sum_of_surviving_entries [OF g1 g2, of 24]
    by (simp add: kept_def seed_time_logs seed_task_ids seed_user_ids valid_hours_def)
qed


section \<open>Task transitions and the audit trail\<close>

lemma find_map_same_id:
  assumes "\<And>x. task_id (f x) = task_id x"
  shows "find (\<lambda>t. task_id t = tid) (map f xs) = map_option f (find (\<lambda>t. task_id t = tid) xs)"
  by (induction xs) (simp_all add: assms)


text \<open>
  Claim C4. A successful \<^verbatim>\<open>transitionTask\<close> appends exactly one activity event, of
  action \<^verbatim>\<open>status_changed\<close>, whose \<^verbatim>\<open>from\<close> is the status of the task before the call
  and whose \<^verbatim>\<open>to\<close> is its status after the call; status and event are parts of the one
  resulting database.
\<close>

theorem transitionTask_appends_one_event:
  assumes "transitionTask derive_actual now eid tid new_status actor db = Inr db'"
  shows "\<exists>t t' e. find (\<lambda>t. task_id t = tid) (tasks db) = Some t
      \<and> find (\<lambda>t. task_id t = tid) (tasks db') = Some t'
      \<and> task_status t' = new_status
      \<and> activity_logs db' = activity_logs db @ [e]
      \<and> al_action e = ''status_changed''
      \<and> al_entity_type e = ''task'' \<and> al_entity_id e = tid
      \<and> al_details e = Some [(''from'', task_status_label (task_status t)),
                               (''to'', task_status_label (task_status t'))]"
proof -
  from assms obtain t where t: "find (\<lambda>t. task_id t = tid) (tasks db) = Some t"
    by (auto simp: transitionTask_def split: option.splits)
  then have tid: "task_id t = tid"
    by (auto simp: find_Some_iff)
  let ?upd = "\<lambda>x. if task_id x = tid
                then x\<lparr>task_status := new_status,
                       task_actual_hours :=
                         (if derive_actual \<and> new_status = st_done \<and> task_actual_hours x = None
                          then Some (total tid db) else task_actual_hours x),
                       task_updated_at := now\<rparr>
                else x"
  let ?e = "\<lparr>al_id = eid, al_user_id = Some actor,
                al_project_id = Some (task_project_id t),
                al_action = ''status_changed'', al_entity_type = ''task'',
                al_entity_id = tid,
                al_details = Some [(''from'', task_status_label (task_status t)),
                                   (''to'', task_status_label new_status)],
                al_created_at = now\<rparr>"
  from assms t have db': "db' = db\<lparr>tasks := map ?upd (tasks db),
      activity_logs := activity_logs db @ [?e]\<rparr>"
    by (auto simp: transitionTask_def split: if_splits)
  have "find (\<lambda>t. task_id t = tid) (map ?upd (tasks db)) = map_option ?upd (Some t)"
    unfolding t [symmetric] by (rule find_map_same_id) simp
  then have t': "find (\<lambda>t. task_id t = tid) (tasks db') = Some (?upd t)"
    by (simp add: db')
  have st: "task_status (?upd t) = new_status"
    by (simp add: tid)
  have logs: "activity_logs db' = activity_logs db @ [?e]"
    by (simp add: db')
  have det: "al_details ?e = Some [(''from'', task_status_label (task_status t)),
                               (''to'', task_status_label (task_status (?upd t)))]"
    unfolding st by simp
  have "al_action ?e = ''status_changed''" "al_entity_type ?e = ''task''" "al_entity_id ?e = tid"
    by simp_all
  with t t' st logs det show ?thesis by blast
qed


text \<open>The task 26 of the sample data goes from \<^verbatim>\<open>todo\<close> to \<^verbatim>\<open>done\<close>.\<close>

lemma seed_transition:
  "transitionTask True 200 60 26 st_done 12 seed_db = Inr seed_db_done"
  by (simp add: transitionTask_def total_def seed_db_def seed_users_def seed_task_23_def
      seed_task_24_def seed_task_26_def seed_activity_logs_def seed_event_7_def
      seed_event_8_def seed_event_9_def seed_db_done_def)

theorem transitionTask_appends_one_event_witness:
  "transitionTask True 200 60 26 st_done 12 seed_db = Inr seed_db_done
   \<and> (\<exists>t t' e. find (\<lambda>t. task_id t = 26) (tasks seed_db) = Some t
      \<and> find (\<lambda>t. task_id t = 26) (tasks seed_db_done) = Some t'
      \<and> task_status t' = st_done
      \<and> activity_logs seed_db_done = activity_logs seed_db @ [e]
      \<and> al_action e = ''status_changed''
      \<and> al_entity_type e = ''task'' \<and> al_entity_id e = 26
      \<and> al_details e = Some [(''from'', task_status_label (task_status t)),
                               (''to'', task_status_label (task_status t'))])"
  by (rule conjI [OF seed_transition transitionTask_appends_one_event [OF seed_transition]])


section \<open>Reading the activity feed\<close>

lemma ordered_ids_distinct:
  assumes "insertion_ordered seq db"
  shows "distinct (map (\<lambda>e. seq (al_id e)) (activity_logs db))"
proof -
  from assms have "sorted_wrt (<) (map (\<lambda>e. seq (al_id e)) (activity_logs db))"
    by (simp add: insertion_ordered_def sorted_wrt_map)
  then show ?thesis
    by (simp add: strict_sorted_iff)
qed

lemma ordered_al_id_inj:
  assumes "insertion_ordered seq db"
  shows "inj_on al_id (set (activity_logs db))"
proof -
  have "inj_on (\<lambda>e. seq (al_id e)) (set (activity_logs db))"
    using ordered_ids_distinct [OF assms] by (simp add: distinct_map)
  then show ?thesis
    by (auto simp: inj_on_def)
qed

lemma ordered_keys_distinct:
  assumes "insertion_ordered seq db"
  shows "distinct (map (event_key seq) (activity_logs db))"
proof -
  have d: "distinct (activity_logs db)"
    and "inj_on (\<lambda>e. seq (al_id e)) (set (activity_logs db))"
    using ordered_ids_distinct [OF assms] by (simp_all add: distinct_map)
  then have "inj_on (event_key seq) (set (activity_logs db))"
    by (auto simp: inj_on_def event_key_def)
  with d show ?thesis
    by (simp add: distinct_map)
qed

lemma sorted_keys_distinct:
  assumes "insertion_ordered seq db"
  shows "distinct (map (event_key seq)
     (sort_key (event_key seq) (filter (in_project project) (activity_logs db))))"
proof -
  let ?xs = "filter (in_project project) (activity_logs db)"
  have "distinct (map (event_key seq) ?xs)"
    by (rule distinct_map_filter [OF ordered_keys_distinct [OF assms]])
  then have "distinct ?xs \<and> inj_on (event_key seq) (set ?xs)"
    by (simp add: distinct_map)
  then show ?thesis
    by (simp add: distinct_map)
qed

lemma newest_first_set:
  "set (newest_first seq project db) = {e \<in> set (activity_logs db). in_project project e}"
  by (auto simp: newest_first_def)

lemma newest_first_descending:
  assumes "insertion_ordered seq db"
  shows "sorted_wrt (\<lambda>a b. event_key seq b < event_key seq a) (newest_first seq project db)"
proof -
  let ?s = "sort_key (event_key seq) (filter (in_project project) (activity_logs db))"
  have "distinct (map (event_key seq) ?s)"
    by (rule sorted_keys_distinct [OF assms])
  moreover have "sorted (map (event_key seq) ?s)"
    by (rule sorted_sort_key)
  ultimately have "sorted_wrt (<) (map (event_key seq) ?s)"
    by (simp add: strict_sorted_iff)
  then have "sorted_wrt (\<lambda>a b. event_key seq a < event_key seq b) ?s"
    by (simp add: sorted_wrt_map)
  then show ?thesis
    by (simp add: newest_first_def sorted_wrt_rev)
qed

lemma sorted_wrt_take_any: "sorted_wrt R xs \<Longrightarrow> sorted_wrt R (take n xs)"
  by (metis append_take_drop_id sorted_wrt_append)

lemma page_keys:
  assumes desc: "sorted_wrt (\<lambda>a b. k b < (k a :: 'k :: linorder)) (p @ r)" and ne: "p \<noteq> []"
  shows "\<forall>x \<in> set p. \<not> k x < k (last p)" and "\<forall>y \<in> set r. k y < k (last p)"
proof -
  have last_in: "last p \<in> set p" using ne by simp
  show "\<forall>y \<in> set r. k y < k (last p)"
    using desc last_in unfolding sorted_wrt_append by blast
  have "sorted_wrt (\<lambda>a b. k b < k a) p"
    using desc unfolding sorted_wrt_append by simp
  then have "sorted_wrt (\<lambda>a b. k b < k a) (butlast p @ [last p])"
    using ne by simp
  then have before_last: "\<forall>x \<in> set (butlast p). k (last p) < k x"
    unfolding sorted_wrt_append by simp
  have "set p = set (butlast p @ [last p])"
    using ne by simp
  then show "\<forall>x \<in> set p. \<not> k x < k (last p)"
    using before_last by auto
qed

lemma after_last_of_page:
  assumes desc: "sorted_wrt (\<lambda>a b. k b < (k a :: 'k :: linorder)) (p @ r)" and ne: "p \<noteq> []"
  shows "filter (\<lambda>e. k e < k (last p)) (p @ r) = r"
proof -
  have "filter (\<lambda>e. k e < k (last p)) p = []"
    using page_keys(1) [OF desc ne] by (simp add: filter_empty_conv)
  moreover have "filter (\<lambda>e. k e < k (last p)) r = r"
    using page_keys(2) [OF desc ne] by (simp add: filter_id_conv)
  ultimately show ?thesis
    by simp
qed

lemma cursor_of_page:
  assumes "p = take n (filter (before_cursor seq before) N)" and "p \<noteq> []"
  shows "before_cursor seq (Some (event_key seq (last p)))
     = (\<lambda>e. before_cursor seq before e \<and> event_key seq e < event_key seq (last p))"
proof -
  have "last p \<in> set p" using assms(2) by simp
  then have "last p \<in> set (filter (before_cursor seq before) N)"
    unfolding assms(1) by (rule in_set_takeD)
  then have c_ok: "before_cursor seq before (last p)"
    by simp
  have "before_cursor seq (Some (event_key seq (last p))) e \<longleftrightarrow>
      before_cursor seq before e \<and> event_key seq e < event_key seq (last p)" for e
    using c_ok by (cases before) (auto simp: before_cursor_def)
  then show ?thesis
    by (simp add: fun_eq_iff)
qed

lemma next_page_same_table:
  assumes ord: "insertion_ordered seq db"
    and ne: "listActivity seq project n before db \<noteq> []"
  shows "listActivity seq project m
      (Some (event_key seq (last (listActivity seq project n before db)))) db
    = take m (drop n (filter (before_cursor seq before) (newest_first seq project db)))"
proof -
  define N where "N = newest_first seq project db"
  define F where "F = filter (before_cursor seq before) N"
  define p where "p = take n F"
  have page: "listActivity seq project n before db = p"
    by (simp add: listActivity_def p_def F_def N_def)
  with ne have pne: "p \<noteq> []" by simp
  have F_split: "F = p @ drop n F"
    by (simp add: p_def)
  have "sorted_wrt (\<lambda>a b. event_key seq b < event_key seq a) F"
    unfolding F_def N_def by (intro sorted_wrt_filter newest_first_descending ord)
  then have desc: "sorted_wrt (\<lambda>a b. event_key seq b < event_key seq a) (p @ drop n F)"
    using F_split by simp
  have "filter (before_cursor seq (Some (event_key seq (last p)))) N
      = filter (\<lambda>e. event_key seq e < event_key seq (last p)) F"
    unfolding cursor_of_page [OF p_def [unfolded F_def] pne] by (simp add: F_def)
  also have "\<dots> = filter (\<lambda>e. event_key seq e < event_key seq (last p)) (p @ drop n F)"
    using F_split by simp
  also have "\<dots> = drop n F"
    by (rule after_last_of_page [OF desc pne])
  finally have "take m (filter (before_cursor seq (Some (event_key seq (last p)))) N)
      = take m (drop n F)"
    by simp
  then show ?thesis
    unfolding page by (simp add: listActivity_def N_def F_def)
qed

lemma next_page_later_table:
  assumes ord: "insertion_ordered seq db" and same: "no_new_events db db'"
    and ne: "listActivity seq project n before db \<noteq> []"
  shows "filter (before_cursor seq
        (Some (event_key seq (last (listActivity seq project n before db)))))
      (newest_first seq project db')
    = filter (\<lambda>e. al_id e \<notin> set (map al_id (listActivity seq project n before db)))
        (filter (before_cursor seq before) (newest_first seq project db'))"
proof -
  define F where "F = filter (before_cursor seq before) (newest_first seq project db)"
  define p where "p = take n F"
  define c where "c = event_key seq (last p)"
  have page: "listActivity seq project n before db = p"
    by (simp add: listActivity_def p_def F_def)
  with ne have pne: "p \<noteq> []" by simp
  have F_split: "F = p @ drop n F"
    by (simp add: p_def)
  have "sorted_wrt (\<lambda>a b. event_key seq b < event_key seq a) F"
    unfolding F_def by (intro sorted_wrt_filter newest_first_descending ord)
  then have desc: "sorted_wrt (\<lambda>a b. event_key seq b < event_key seq a) (p @ drop n F)"
    using F_split by simp
  note keys = page_keys [OF desc pne]
  have p_sub: "set p \<subseteq> set (activity_logs db)"
    unfolding p_def F_def by (auto dest: in_set_takeD simp: newest_first_set)
  have cur: "before_cursor seq (Some c)
      = (\<lambda>e. before_cursor seq before e \<and> event_key seq e < c)"
    unfolding c_def by (rule cursor_of_page [OF p_def [unfolded F_def] pne])
  have iff: "al_id e' \<notin> set (map al_id p) \<longleftrightarrow> event_key seq e' < c"
    if e': "e' \<in> set (newest_first seq project db')" and b: "before_cursor seq before e'" for e'
  proof -
    from e' have "event_core e' \<in> set (map event_core (activity_logs db'))"
      by (auto simp: newest_first_set)
    with same obtain e where e: "e \<in> set (activity_logs db)" and core: "event_core e = event_core e'"
      by (auto simp: no_new_events_def)
    from core have key: "event_key seq e = event_key seq e'" and id: "al_id e = al_id e'"
      and prj: "al_project_id e = al_project_id e'"
      by (simp_all add: event_core_def event_key_def)
    from e' prj have "in_project project e"
      by (auto simp: newest_first_set in_project_def split: option.splits)
    moreover from b key have "before_cursor seq before e"
      by (cases before) (simp_all add: before_cursor_def)
    ultimately have "e \<in> set F"
      using e by (simp add: F_def newest_first_set)
    then have in_F: "e \<in> set p \<or> e \<in> set (drop n F)"
      using F_split by (metis Un_iff set_append)
    show ?thesis
    proof
      assume out: "al_id e' \<notin> set (map al_id p)"
      then have "e \<notin> set p"
        using id by (metis imageI set_map)
      with in_F have "e \<in> set (drop n F)" by simp
      with keys(2) have "event_key seq e < event_key seq (last p)" by blast
      then show "event_key seq e' < c"
        by (simp add: key c_def)
    next
      assume less: "event_key seq e' < c"
      show "al_id e' \<notin> set (map al_id p)"
      proof
        assume "al_id e' \<in> set (map al_id p)"
        then obtain x where x: "x \<in> set p" and "al_id x = al_id e'"
          by auto
        with id have "al_id x = al_id e" by simp
        moreover from x p_sub have "x \<in> set (activity_logs db)" by blast
        ultimately have "x = e"
          using ordered_al_id_inj [OF ord] e by (auto dest: inj_onD)
        with x keys(1) have "\<not> event_key seq e < event_key seq (last p)" by blast
        with less show False
          by (simp add: key c_def)
      qed
    qed
  qed
  have "filter (before_cursor seq (Some c)) (newest_first seq project db')
      = filter (\<lambda>e. before_cursor seq before e \<and> event_key seq e < c)
          (newest_first seq project db')"
    by (simp only: cur)
  also have "\<dots> = filter (\<lambda>e. before_cursor seq before e \<and> al_id e \<notin> set (map al_id p))
          (newest_first seq project db')"
  proof (rule filter_cong [OF refl])
    fix e'
    assume "e' \<in> set (newest_first seq project db')"
    then show "(before_cursor seq before e' \<and> event_key seq e' < c)
        = (before_cursor seq before e' \<and> al_id e' \<notin> set (map al_id p))"
      using iff by blast
  qed
  also have "\<dots> = filter (\<lambda>e. al_id e \<notin> set (map al_id p))
        (filter (before_cursor seq before) (newest_first seq project db'))"
    by (simp add: conj_commute)
  finally show ?thesis
    unfolding page c_def .
qed

lemma less_key_iff:
  "event_key seq b < event_key seq a \<longleftrightarrow>
     al_created_at b < al_created_at a
     \<or> al_created_at b = al_created_at a \<and> seq (al_id b) < seq (al_id a)"
  by (auto simp: event_key_def less_prod_def)


text \<open>
  Claim C6. For a fixed project, \<^verbatim>\<open>listActivity\<close> returns the events strictly newest
  first: by creation timestamp descending, equal timestamps by the monotonically
  increasing insertion sequence descending. No event is returned twice and the listing
  without limit and cursor holds every event of the project. When no new event is inserted
  between two page requests (events may have been removed, the table is \<open>db'\<close> at the
  second request), the page asked for with the key of the last event of a page as
  \<^verbatim>\<open>before\<close> holds, in order, the first events of the current listing that were not on
  that page: nothing is skipped and nothing is repeated. On the unchanged table the two
  pages together are the one longer page.
\<close>

theorem listActivity_ordered_and_paged:
  assumes "insertion_ordered seq db" and "no_new_events db db'"
  shows "sorted_wrt (\<lambda>a b. al_created_at b < al_created_at a
        \<or> al_created_at b = al_created_at a \<and> seq (al_id b) < seq (al_id a))
      (listActivity seq project n before db)
   \<and> distinct (map al_id (listActivity seq project n before db))
   \<and> set (listActivity seq project (length (activity_logs db)) None db)
        = {e \<in> set (activity_logs db). in_project project e}
   \<and> (listActivity seq project n before db \<noteq> [] \<longrightarrow>
        listActivity seq project m
            (Some (event_key seq (last (listActivity seq project n before db)))) db'
          = take m (filter (\<lambda>e. al_id e \<notin> set (map al_id (listActivity seq project n before db)))
              (filter (before_cursor seq before) (newest_first seq project db')))
      \<and> listActivity seq project n before db
          @ listActivity seq project m
              (Some (event_key seq (last (listActivity seq project n before db)))) db
        = listActivity seq project (n + m) before db)"
proof (intro conjI impI)
  have "sorted_wrt (\<lambda>a b. event_key seq b < event_key seq a)
      (listActivity seq project n before db)"
    unfolding listActivity_def
    by (intro sorted_wrt_take_any sorted_wrt_filter newest_first_descending assms)
  then show "sorted_wrt (\<lambda>a b. al_created_at b < al_created_at a
        \<or> al_created_at b = al_created_at a \<and> seq (al_id b) < seq (al_id a))
      (listActivity seq project n before db)"
    by (simp add: less_key_iff)
next
  have "distinct (activity_logs db)"
    using ordered_ids_distinct [OF assms(1)] by (simp add: distinct_map)
  then have "distinct (map al_id (activity_logs db))"
    using ordered_al_id_inj [OF assms(1)] by (simp add: distinct_map)
  then have "distinct (map al_id (filter (in_project project) (activity_logs db)))"
    by (rule distinct_map_filter)
  then have "distinct (map al_id (newest_first seq project db))"
    by (simp add: newest_first_def distinct_map rev_map [symmetric])
  then have "distinct (map al_id (filter (before_cursor seq before) (newest_first seq project db)))"
    by (rule distinct_map_filter)
  then show "distinct (map al_id (listActivity seq project n before db))"
    by (simp add: listActivity_def take_map [symmetric])
next
  have "length (newest_first seq project db) \<le> length (activity_logs db)"
    by (simp add: newest_first_def)
  then show "set (listActivity seq project (length (activity_logs db)) None db)
        = {e \<in> set (activity_logs db). in_project project e}"
    by (simp add: listActivity_def before_cursor_def newest_first_set)
next
  assume ne: "listActivity seq project n before db \<noteq> []"
  show "listActivity seq project m
            (Some (event_key seq (last (listActivity seq project n before db)))) db'
          = take m (filter (\<lambda>e. al_id e \<notin> set (map al_id (listActivity seq project n before db)))
              (filter (before_cursor seq before) (newest_first seq project db')))"
    unfolding next_page_later_table [OF assms ne, symmetric]
    by (simp add: listActivity_def)
  show "listActivity seq project n before db
          @ listActivity seq project m
              (Some (event_key seq (last (listActivity seq project n before db)))) db
        = listActivity seq project (n + m) before db"
    unfolding next_page_same_table [OF assms(1) ne] by (simp add: listActivity_def take_add)
qed


text \<open>
  The feed over two projects, pages of two for the project 62; between the two requests the
  project 61 is deleted, which removes the event 70 by cascade and inserts nothing.
\<close>

lemma feed_logs:
  "activity_logs feed_db = [feed_event 70 61, feed_event 71 62, feed_event 72 62, feed_event 73 62]"
  "activity_logs (delete_project 200 61 feed_db) = [feed_event 71 62, feed_event 72 62, feed_event 73 62]"
proof -
  show a: "activity_logs feed_db
      = [feed_event 70 61, feed_event 71 62, feed_event 72 62, feed_event 73 62]"
    by (simp add: feed_db_def)
  have "61 \<in> set (map prj_id (projects feed_db))"
    by (simp add: feed_db_def feed_project_def)
  then show "activity_logs (delete_project 200 61 feed_db)
      = [feed_event 71 62, feed_event 72 62, feed_event 73 62]"
    by (simp add: delete_project_sel(4) a feed_event_def)
qed

lemma feed_event_fields:
  "al_id (feed_event i p) = i" "al_created_at (feed_event i p) = 100"
  "al_project_id (feed_event i p) = Some p"
  by (simp_all add: feed_event_def)

lemma feed_listing:
  "newest_first (\<lambda>i. i) (Some 62) feed_db = [feed_event 73 62, feed_event 72 62, feed_event 71 62]"
  "newest_first (\<lambda>i. i) (Some 62) (delete_project 200 61 feed_db)
     = [feed_event 73 62, feed_event 72 62, feed_event 71 62]"
  by (simp_all add: newest_first_def feed_logs in_project_def event_key_def feed_event_fields
      less_eq_prod_def)

lemma feed_pages:
  "listActivity (\<lambda>i. i) (Some 62) 2 None feed_db = [feed_event 73 62, feed_event 72 62]"
  "listActivity (\<lambda>i. i) (Some 62) 2 (Some (100, 72)) (delete_project 200 61 feed_db)
     = [feed_event 71 62]"
  "listActivity (\<lambda>i. i) (Some 62) 2 (Some (100, 72)) feed_db = [feed_event 71 62]"
  "listActivity (\<lambda>i. i) (Some 62) 4 None feed_db
     = [feed_event 73 62, feed_event 72 62, feed_event 71 62]"
  by (simp_all add: listActivity_def feed_listing before_cursor_def event_key_def
      feed_event_fields less_prod_def)

theorem listActivity_ordered_and_paged_witness:
  "insertion_ordered (\<lambda>i. i) feed_db
   \<and> no_new_events feed_db (delete_project 200 61 feed_db)
   \<and> listActivity (\<lambda>i. i) (Some 62) 2 None feed_db = [feed_event 73 62, feed_event 72 62]
   \<and> listActivity (\<lambda>i. i) (Some 62) 2
        (Some (event_key (\<lambda>i. i) (last (listActivity (\<lambda>i. i) (Some 62) 2 None feed_db))))
        (delete_project 200 61 feed_db)
       = [feed_event 71 62]
   \<and> listActivity (\<lambda>i. i) (Some 62) 2
        (Some (event_key (\<lambda>i. i) (last (listActivity (\<lambda>i. i) (Some 62) 2 None feed_db))))
        (delete_project 200 61 feed_db)
       = take 2 (filter
           (\<lambda>e. al_id e \<notin> set (map al_id (listActivity (\<lambda>i. i) (Some 62) 2 None feed_db)))
           (filter (before_cursor (\<lambda>i. i) None)
              (newest_first (\<lambda>i. i) (Some 62) (delete_project 200 61 feed_db))))
   \<and> listActivity (\<lambda>i. i) (Some 62) 2 None feed_db
        @ listActivity (\<lambda>i. i) (Some 62) 2
            (Some (event_key (\<lambda>i. i) (last (listActivity (\<lambda>i. i) (Some 62) 2 None feed_db))))
            feed_db
       = listActivity (\<lambda>i. i) (Some 62) (2 + 2) None feed_db"
proof -
  have h1: "insertion_ordered (\<lambda>i. i) feed_db"
    by (simp add: insertion_ordered_def feed_logs feed_event_fields)
  have h2: "no_new_events feed_db (delete_project 200 61 feed_db)"
    by (simp add: no_new_events_def feed_logs)
  have p1: "listActivity (\<lambda>i. i) (Some 62) 2 None feed_db = [feed_event 73 62, feed_event 72 62]"
    by (rule feed_pages(1))
  then have ne: "listActivity (\<lambda>i. i) (Some 62) 2 None feed_db \<noteq> []"
    by simp
  have c: "event_key (\<lambda>i. i) (last (listActivity (\<lambda>i. i) (Some 62) 2 None feed_db)) = (100, 72)"
    by (simp add: feed_pages event_key_def feed_event_fields)
  have p2: "listActivity (\<lambda>i. i) (Some 62) 2
        (Some (event_key (\<lambda>i. i) (last (listActivity (\<lambda>i. i) (Some 62) 2 None feed_db))))
        (delete_project 200 61 feed_db)
       = [feed_event 71 62]"
    unfolding c by (rule feed_pages(2))
  show ?thesis
    using h1 h2 p1 p2 ne listActivity_ordered_and_paged [OF h1 h2, of "Some 62" 2 None 2]
    by blast
qed


section \<open>Dropping a card on the kanban board\<close>











end
